theory Spec2Isabelle
  imports Complex_Main
begin

section \<open>JavaScript values used by the inspect service\<close>

text \<open>
  The inspect result delivered by a bot is a loosely typed record (\<open>response: any\<close>).
  Its numeric fields are numbers or \<open>null\<close>; a nullable field is an \<open>option\<close> whose
  \<open>None\<close> is \<open>null\<close>. Numbers are exact rationals: every finite double is one, and
  \<open>===\<close> on finite numbers is equality. \<open>NaN\<close> and the infinities are outside the model.
\<close>

type_synonym jsnum = rat

text \<open>Truthiness of a nullable number: \<open>null\<close> and \<open>0\<close> are falsy.\<close>

definition truthy :: "jsnum option \<Rightarrow> bool" where
  "truthy v = (case v of None \<Rightarrow> False | Some n \<Rightarrow> n \<noteq> 0)"

text \<open>\<open>v || 0\<close> on a nullable number.\<close>

definition or_zero :: "jsnum option \<Rightarrow> jsnum" where
  "or_zero v = (case v of None \<Rightarrow> 0 | Some n \<Rightarrow> if n \<noteq> 0 then n else 0)"

text \<open>\<open>v === null ? 0 : v\<close>.\<close>

definition null_to_zero :: "jsnum option \<Rightarrow> jsnum" where
  "null_to_zero v = (case v of None \<Rightarrow> 0 | Some n \<Rightarrow> n)"

text \<open>The numeric conversion that \<open>>\<close> applies to its operands: \<open>null\<close> becomes \<open>0\<close>.\<close>

definition to_number :: "jsnum option \<Rightarrow> jsnum" where
  "to_number v = (case v of None \<Rightarrow> 0 | Some n \<Rightarrow> n)"

text \<open>\<open>String.prototype.startsWith\<close>.\<close>

definition startsWith :: "string \<Rightarrow> string \<Rightarrow> bool" where
  "startsWith str p = (take (length p) str = p)"

text \<open>\<open>Array.prototype.join\<close> on an array of strings.\<close>

fun join :: "string \<Rightarrow> string list \<Rightarrow> string" where
  "join sep [] = []"
| "join sep [x] = x"
| "join sep (x # y # ys) = x @ sep @ join sep (y # ys)"

section \<open>Schemas\<close>

text \<open>\<open>HistoryType\<close> of \<open>history.schema\<close>.\<close>

datatype HistoryType =
    TRADE | TRADE_BOT | TRADE_CANCELLED
  | MARKET_LISTING | MARKET_BUY | MARKET_RELISTING | MARKET_CANCELLED
  | STICKER_APPLY | STICKER_REMOVE | STICKER_CHANGE | STICKER_SCRAPE
  | UNBOXED | CRAFTED | TRADED_UP | PURCHASED_INGAME | DROPPED
  | NAMETAG_ADDED | NAMETAG_REMOVED
  | KEYCHAIN_ADDED | KEYCHAIN_REMOVED | KEYCHAIN_CHANGED
  | STORAGE_UNIT_STORED | STORAGE_UNIT_RETRIEVED | GIFT_RECEIVED | GIFT_SENT
  | CONTRACT_LISTED | CONTRACT_COMPLETED | CONTRACT_CANCELLED
  | UNKNOWN

text \<open>
  A sticker or keychain of an inspect result (\<open>StickerKeychain\<close>), with the fields the
  service's documentation lists for one.
\<close>

record sticker =
  slot :: "jsnum option"
  sticker_id :: "jsnum option"
  wear :: "jsnum option"
  scale :: "jsnum option"
  rotation :: "jsnum option"
  tint_id :: "jsnum option"
  offset_x :: "jsnum option"
  offset_y :: "jsnum option"
  offset_z :: "jsnum option"
  pattern :: "jsnum option"

text \<open>The inspect result, with the fields \<open>InspectService\<close> reads.\<close>

record response =
  r_itemid :: string
  r_paintseed :: "jsnum option"
  r_paintindex :: "jsnum option"
  r_paintwear :: "jsnum option"
  r_defindex :: "jsnum option"
  r_origin :: "jsnum option"
  r_rarity :: "jsnum option"
  r_questid :: "jsnum option"
  r_quality :: "jsnum option"
  r_dropreason :: "jsnum option"
  r_customname :: "string option"
  r_stickers :: "sticker list option"
  r_keychains :: "sticker list option"
  r_killeaterscoretype :: "jsnum option"
  r_killeatervalue :: "jsnum option"
  r_inventory :: "jsnum option"
  r_petindex :: "jsnum option"
  r_musicindex :: "jsnum option"
  r_entindex :: "jsnum option"

text \<open>\<open>inspectData\<close>: the owner or market id (\<open>ms\<close>) and the proof token \<open>d\<close>.\<close>

record inspectData =
  i_ms :: string
  i_d :: string

text \<open>
  The prior record as \<open>getHistoryType\<close> reads it (\<open>history: any\<close>): \<open>owner\<close>,
  \<open>stickers\<close> and \<open>keychains\<close>. Owner ids are their decimal strings; an absent
  \<open>owner\<close> is \<open>None\<close>.
\<close>

record prior =
  p_owner :: "string option"
  p_stickers :: "sticker list option"
  p_keychains :: "sticker list option"

section \<open>History classifier\<close>

text \<open>
  The predicate of \<open>previousStickers.find\<close> in \<open>detectStickerChanges\<close>: equality on
  the two offsets, the third offset, rotation, slot and sticker id.
\<close>

definition sameSticker :: "sticker \<Rightarrow> sticker \<Rightarrow> bool" where
  "sameSticker current prev =
     (offset_x prev = offset_x current \<and>
      offset_y prev = offset_y current \<and>
      offset_z prev = offset_z current \<and>
      rotation prev = rotation current \<and>
      slot prev = slot current \<and>
      sticker_id prev = sticker_id current)"

text \<open>
  The \<open>for (const current of currentStickers)\<close> loop of \<open>detectStickerChanges\<close>; the
  last argument is what is left of \<open>currentStickers\<close>.
\<close>

fun scanStickers :: "sticker list \<Rightarrow> sticker list \<Rightarrow> sticker list \<Rightarrow> HistoryType option" where
  "scanStickers currentStickers previousStickers [] = None"
| "scanStickers currentStickers previousStickers (current # rest) =
     (case find (sameSticker current) previousStickers of
        None \<Rightarrow>
          if length currentStickers = length previousStickers
          then Some STICKER_CHANGE
          else Some STICKER_REMOVE
      | Some previous \<Rightarrow>
          if wear current \<noteq> wear previous
          then (if to_number (wear current) > to_number (wear previous)
                then Some STICKER_SCRAPE
                else Some STICKER_CHANGE)
          else scanStickers currentStickers previousStickers rest)"

definition detectStickerChanges ::
  "sticker list option \<Rightarrow> sticker list option \<Rightarrow> HistoryType option" where
  "detectStickerChanges currentStickers previousStickers =
     (case currentStickers of
        None \<Rightarrow> None
      | Some cur \<Rightarrow>
          (case previousStickers of
             None \<Rightarrow> None
           | Some prev \<Rightarrow>
               if length cur > length prev then Some STICKER_APPLY
               else if length cur < length prev then Some STICKER_REMOVE
               else scanStickers cur prev cur))"

text \<open>
  \<open>detectKeychainChanges\<close>. The source compares \<open>JSON.stringify\<close> of the two arrays;
  two arrays of records with the same fields serialise alike exactly when they are equal.
\<close>

definition detectKeychainChanges ::
  "sticker list option \<Rightarrow> sticker list option \<Rightarrow> HistoryType option" where
  "detectKeychainChanges currentKeychains previousKeychains =
     (case currentKeychains of
        None \<Rightarrow> None
      | Some cur \<Rightarrow>
          (case previousKeychains of
             None \<Rightarrow> None
           | Some prev \<Rightarrow>
               if length cur = 0 \<and> length prev > 0 then Some KEYCHAIN_REMOVED
               else if length cur > 0 \<and> length prev = 0 then Some KEYCHAIN_ADDED
               else if cur \<noteq> prev then Some KEYCHAIN_CHANGED
               else None))"

text \<open>
  \<open>owner.toString().startsWith('7656')\<close> behind the optional chaining: an absent owner
  gives \<open>undefined\<close>, which is falsy.
\<close>

definition ownerIsUser :: "string option \<Rightarrow> bool" where
  "ownerIsUser owner = (case owner of None \<Rightarrow> False | Some s \<Rightarrow> startsWith s ''7656'')"

text \<open>Truthiness of \<open>history?.owner\<close>: absent and the empty string are falsy.\<close>

definition ownerPresent :: "string option \<Rightarrow> bool" where
  "ownerPresent owner = (case owner of None \<Rightarrow> False | Some s \<Rightarrow> s \<noteq> [])"

definition getHistoryType :: "response \<Rightarrow> prior option \<Rightarrow> inspectData \<Rightarrow> HistoryType" where
  "getHistoryType resp history insp =
     (case history of
        None \<Rightarrow>
          if r_origin resp = Some 8 then TRADED_UP
          else if r_origin resp = Some 4 then DROPPED
          else if r_origin resp = Some 1 then PURCHASED_INGAME
          else if r_origin resp = Some 2 then UNBOXED
          else if r_origin resp = Some 3 then CRAFTED
          else UNKNOWN
      | Some h \<Rightarrow>
          if p_owner h \<noteq> Some (i_ms insp) \<and> ownerIsUser (p_owner h) then TRADE
          else if p_owner h \<noteq> Some (i_ms insp) \<and> ownerPresent (p_owner h)
                  \<and> \<not> ownerIsUser (p_owner h) then MARKET_BUY
          else if ownerPresent (p_owner h) \<and> ownerIsUser (p_owner h)
                  \<and> \<not> startsWith (i_ms insp) ''7656'' then MARKET_LISTING
          else if p_owner h = Some (i_ms insp) then
            (case detectStickerChanges (r_stickers resp) (p_stickers h) of
               Some t \<Rightarrow> t
             | None \<Rightarrow>
                 (case detectKeychainChanges (r_keychains resp) (p_keychains h) of
                    Some t \<Rightarrow> t
                  | None \<Rightarrow> UNKNOWN))
          else UNKNOWN)"

section \<open>\<open>parseInt\<close>\<close>

text \<open>
  \<open>parseInt(string, radix)\<close> as ECMAScript defines it: leading white space is skipped, a
  sign is read, without a radix a \<open>0x\<close> prefix selects radix 16 and anything else radix
  10, and the longest prefix of digits of the radix is the value; with no digit the result
  is \<open>NaN\<close>, here \<open>None\<close>. The result is exact: the ids parsed here are below \<open>2^53\<close>.
\<close>

definition isWhiteSpace :: "char \<Rightarrow> bool" where
  "isWhiteSpace c =
     (c = CHR '' '' \<or> c = CHR 0x09 \<or> c = CHR 0x0A \<or> c = CHR 0x0B \<or> c = CHR 0x0C \<or> c = CHR 0x0D)"

definition digitValue :: "char \<Rightarrow> nat" where
  "digitValue c =
     (let n = (of_char c :: nat) in
      if 48 \<le> n \<and> n \<le> 57 then n - 48
      else if 97 \<le> n \<and> n \<le> 122 then n - 87
      else if 65 \<le> n \<and> n \<le> 90 then n - 55
      else 36)"

definition isDigitOf :: "nat \<Rightarrow> char \<Rightarrow> bool" where
  "isDigitOf R c = (digitValue c < R)"

definition digitsValue :: "nat \<Rightarrow> string \<Rightarrow> nat" where
  "digitsValue R ds = foldl (\<lambda>acc c. R * acc + digitValue c) 0 ds"

definition hasHexPrefix :: "string \<Rightarrow> bool" where
  "hasHexPrefix str = (take 2 str = ''0x'' \<or> take 2 str = ''0X'')"

definition parseInt :: "string \<Rightarrow> nat option \<Rightarrow> int option" where
  "parseInt str radix =
     (let s1 = dropWhile isWhiteSpace str;
          neg = (take 1 s1 = ''-'');
          s2 = (if take 1 s1 = ''-'' \<or> take 1 s1 = ''+'' then drop 1 s1 else s1);
          hex = (radix = None \<and> hasHexPrefix s2);
          R = (if hex then 16 else (case radix of None \<Rightarrow> 10 | Some r \<Rightarrow> r));
          s3 = (if hex then drop 2 s2 else s2);
          ds = takeWhile (isDigitOf R) s3
      in if ds = [] then None
         else Some (if neg then - int (digitsValue R ds) else int (digitsValue R ds)))"

section \<open>Documents and the store\<close>

text \<open>
  An \<open>Asset\<close> document with the paths that \<open>saveAsset\<close> sets, and a \<open>History\<close>
  document. Owner and market ids (\<open>ms\<close>, \<open>owner\<close>) are kept as their decimal strings.
\<close>

record asset =
  a_uniqueId :: string
  a_ms :: string
  a_d :: string
  a_assetId :: int
  a_paintSeed :: "jsnum option"
  a_paintIndex :: "jsnum option"
  a_paintWear :: "jsnum option"
  a_customName :: "string option"
  a_defIndex :: "jsnum option"
  a_origin :: "jsnum option"
  a_rarity :: "jsnum option"
  a_questId :: "jsnum option"
  a_stickers :: "sticker list option"
  a_quality :: "jsnum option"
  a_keychains :: "sticker list option"
  a_killeaterScoreType :: "jsnum option"
  a_killeaterValue :: "jsnum option"
  a_inventory :: "jsnum option"
  a_petIndex :: "jsnum option"
  a_musicIndex :: "jsnum option"
  a_entIndex :: "jsnum option"
  a_dropReason :: "jsnum option"

record history =
  h_uniqueId :: string
  h_assetId :: int
  h_prevAssetId :: "int option"
  h_owner :: string
  h_prevOwner :: "string option"
  h_d :: string
  h_stickers :: "sticker list option"
  h_keychains :: "sticker list option"
  h_prevStickers :: "sticker list option"
  h_prevKeychains :: "sticker list option"
  h_type :: HistoryType

text \<open>
  The two collections, each in creation order (the order of \<open>createdAt\<close>): a document
  that is created is appended, and an update leaves a document where it is.
\<close>

record store =
  assetModel :: "asset list"
  historyModel :: "history list"

text \<open>
  What the service can throw while it handles a result: a Mongoose cast error (an id that
  \<open>parseInt\<close> turns into \<open>NaN\<close>), a duplicate key on the unique index
  \<open>(uniqueId, assetId)\<close> of the history collection, and its own \<open>No asset found\<close>.
\<close>

datatype error = CastError | DuplicateKey | NoAssetFound string

text \<open>
  \<open>historyModel.create\<close> under the unique compound index \<open>{uniqueId: 1, assetId: 1}\<close>
  that \<open>history.schema\<close> declares.
\<close>

definition historyCreate :: "history \<Rightarrow> history list \<Rightarrow> error + history list" where
  "historyCreate h hs =
     (if list_ex (\<lambda>x. h_uniqueId x = h_uniqueId h \<and> h_assetId x = h_assetId h) hs
      then Inl DuplicateKey
      else Inr (hs @ [h]))"

text \<open>
  \<open>assetModel.findOneAndUpdate({uniqueId}, {$set: assetData}, {upsert: true})\<close>: the
  first document with that \<open>uniqueId\<close> gets the paths of \<open>assetData\<close>; without one,
  \<open>assetData\<close> is inserted.
\<close>

fun upsertAsset :: "asset \<Rightarrow> asset list \<Rightarrow> asset list" where
  "upsertAsset assetData [] = [assetData]"
| "upsertAsset assetData (x # xs) =
     (if a_uniqueId x = a_uniqueId assetData then assetData # xs
      else x # upsertAsset assetData xs)"

section \<open>Requests\<close>

text \<open>
  The query of a request (\<open>InspectDto\<close>): the inspect link or its four fields as the
  client sent them, and the flags \<open>refresh\<close>, \<open>reply\<close> and \<open>lowPriority\<close>, each absent
  (\<open>None\<close>) or a boolean. What \<open>ParseService.parse\<close> returns is a \<open>link\<close>: the owner
  \<open>s\<close>, the asset id \<open>a\<close>, the proof token \<open>d\<close> and the market id \<open>m\<close>.
\<close>

record query =
  qy_url :: "string option"
  qy_s :: "string option"
  qy_a :: "string option"
  qy_d :: "string option"
  qy_m :: "string option"
  qy_refresh :: "bool option"
  qy_reply :: "bool option"
  qy_lowPriority :: "bool option"

record link =
  l_s :: string
  l_a :: string
  l_d :: string
  l_m :: string

text \<open>\<open>HttpException\<close> of NestJS: a message and an HTTP status.\<close>

datatype HttpException = HttpException string nat

text \<open>Truthiness of an optional flag.\<close>

definition flag :: "bool option \<Rightarrow> bool" where
  "flag v = (v = Some True)"

section \<open>The collaborators of \<open>InspectService\<close>\<close>

text \<open>
  Functions of Node and of services whose sources are not part of the repository's files
  are parameters: SHA-1 with hex digest (\<open>crypto.createHash\<close>), the conversion of a number
  to a string that \<open>Array.prototype.join\<close> and template literals apply,
  \<open>FormatService.formatResponse\<close> and \<open>ParseService.parse\<close> (which may throw).
\<close>

record 'f deps =
  sha1hex :: "string \<Rightarrow> string"
  numToString :: "jsnum \<Rightarrow> string"
  formatResponse :: "asset \<Rightarrow> 'f"
  parse :: "query \<Rightarrow> HttpException + link"

section \<open>Handling an inspect result\<close>

text \<open>The argument of \<open>generateUniqueId\<close>.\<close>

record idItem =
  u_paintSeed :: "jsnum option"
  u_paintIndex :: "jsnum option"
  u_paintWear :: "jsnum option"
  u_defIndex :: "jsnum option"
  u_origin :: "jsnum option"
  u_rarity :: "jsnum option"
  u_questId :: "jsnum option"
  u_quality :: "jsnum option"
  u_dropReason :: "jsnum option"

definition generateUniqueId :: "'f deps \<Rightarrow> idItem \<Rightarrow> string" where
  "generateUniqueId dp item =
     (let values = [or_zero (u_paintSeed item), or_zero (u_paintIndex item),
                    or_zero (u_paintWear item), or_zero (u_defIndex item)];
          stringToHash = join ''-'' (map (numToString dp) values)
      in take 8 (sha1hex dp stringToHash))"

text \<open>
  \<open>findHistory\<close>: the most recently created asset with the same paint wear, paint index,
  definition index, paint seed, origin, quest id and rarity.
\<close>

definition findHistory :: "response \<Rightarrow> store \<Rightarrow> asset option" where
  "findHistory resp st =
     find (\<lambda>x. a_paintWear x = r_paintwear resp \<and>
                a_paintIndex x = r_paintindex resp \<and>
                a_defIndex x = r_defindex resp \<and>
                a_paintSeed x = r_paintseed resp \<and>
                a_origin x = r_origin resp \<and>
                a_questId x = r_questid resp \<and>
                a_rarity x = r_rarity resp)
          (rev (assetModel st))"

text \<open>
  The prior asset as \<open>getHistoryType\<close> reads it. The asset schema has no \<open>owner\<close> path
  (the owner is kept in \<open>ms\<close>), so \<open>history.owner\<close> of an asset document is
  \<open>undefined\<close>.
\<close>

definition priorOfAsset :: "asset \<Rightarrow> prior" where
  "priorOfAsset x = \<lparr> p_owner = None, p_stickers = a_stickers x, p_keychains = a_keychains x \<rparr>"

definition saveHistory ::
  "response \<Rightarrow> asset option \<Rightarrow> inspectData \<Rightarrow> string \<Rightarrow> store \<Rightarrow> (error + unit) \<times> store" where
  "saveHistory resp history insp uniqueId st =
     (case parseInt (r_itemid resp) None of
        None \<Rightarrow> (Inl CastError, st)
      | Some assetId \<Rightarrow>
          (case find (\<lambda>h. h_assetId h = assetId) (historyModel st) of
             Some existing \<Rightarrow> (Inr (), st)
           | None \<Rightarrow>
               (case historyCreate
                       \<lparr> h_uniqueId = uniqueId,
                         h_assetId = assetId,
                         h_prevAssetId = map_option a_assetId history,
                         h_owner = i_ms insp,
                         h_prevOwner = map_option a_ms history,
                         h_d = i_d insp,
                         h_stickers = r_stickers resp,
                         h_keychains = r_keychains resp,
                         h_prevStickers = Option.bind history a_stickers,
                         h_prevKeychains = Option.bind history a_keychains,
                         h_type = getHistoryType resp (map_option priorOfAsset history) insp \<rparr>
                       (historyModel st) of
                  Inl e \<Rightarrow> (Inl e, st)
                | Inr hs \<Rightarrow> (Inr (), st\<lparr>historyModel := hs\<rparr>))))"

definition saveAsset ::
  "response \<Rightarrow> inspectData \<Rightarrow> string \<Rightarrow> store \<Rightarrow> (error + asset option) \<times> store" where
  "saveAsset resp insp uniqueId st =
     (case parseInt (r_itemid resp) None of
        None \<Rightarrow> (Inl CastError, st)
      | Some assetId \<Rightarrow>
          (let assetData =
                 \<lparr> a_uniqueId = uniqueId,
                   a_ms = i_ms insp,
                   a_d = i_d insp,
                   a_assetId = assetId,
                   a_paintSeed = Some (null_to_zero (r_paintseed resp)),
                   a_paintIndex = Some (null_to_zero (r_paintindex resp)),
                   a_paintWear = Some (null_to_zero (r_paintwear resp)),
                   a_customName = r_customname resp,
                   a_defIndex = r_defindex resp,
                   a_origin = r_origin resp,
                   a_rarity = r_rarity resp,
                   a_questId = r_questid resp,
                   a_stickers = r_stickers resp,
                   a_quality = r_quality resp,
                   a_keychains = r_keychains resp,
                   a_killeaterScoreType = r_killeaterscoretype resp,
                   a_killeaterValue = r_killeatervalue resp,
                   a_inventory = r_inventory resp,
                   a_petIndex = r_petindex resp,
                   a_musicIndex = r_musicindex resp,
                   a_entIndex = r_entindex resp,
                   a_dropReason = r_dropreason resp \<rparr>;
               st' = st\<lparr>assetModel := upsertAsset assetData (assetModel st)\<rparr>
           in (Inr (find (\<lambda>x. a_assetId x = assetId) (assetModel st')), st')))"

definition handleInspectResult ::
  "'f deps \<Rightarrow> response \<Rightarrow> inspectData \<Rightarrow> store \<Rightarrow> (error + 'f) \<times> store" where
  "handleInspectResult dp resp insp st =
     (let uniqueId = generateUniqueId dp
            \<lparr> u_paintSeed = r_paintseed resp,
              u_paintIndex = Some (null_to_zero (r_paintindex resp)),
              u_paintWear = Some (null_to_zero (r_paintwear resp)),
              u_defIndex = r_defindex resp,
              u_origin = r_origin resp,
              u_rarity = r_rarity resp,
              u_questId = r_questid resp,
              u_quality = r_quality resp,
              u_dropReason = r_dropreason resp \<rparr>;
          (saved, st1) =
            (if truthy (r_paintseed resp) \<and> r_paintwear resp \<noteq> None \<and> r_paintindex resp \<noteq> None
             then saveHistory resp (findHistory resp st) insp uniqueId st
             else (Inr (), st))
      in case saved of
           Inl e \<Rightarrow> (Inl e, st1)
         | Inr u \<Rightarrow>
             (case saveAsset resp insp uniqueId st1 of
                (Inl e, st2) \<Rightarrow> (Inl e, st2)
              | (Inr None, st2) \<Rightarrow> (Inl (NoAssetFound (r_itemid resp)), st2)
              | (Inr (Some asset), st2) \<Rightarrow> (Inr (formatResponse dp asset), st2)))"

text \<open>
  \<open>checkCache\<close>: the asset with the asset id, formatted; \<open>null\<close> (\<open>None\<close>) without one
  and when the lookup throws (an asset id that is not a number).
\<close>

definition checkCache :: "'f deps \<Rightarrow> store \<Rightarrow> string \<Rightarrow> string \<Rightarrow> 'f option" where
  "checkCache dp st assetId d =
     (case parseInt assetId (Some 10) of
        None \<Rightarrow> None
      | Some assetIdNum \<Rightarrow>
          (case find (\<lambda>x. a_assetId x = assetIdNum) (assetModel st) of
             Some asset \<Rightarrow> Some (formatResponse dp asset)
           | None \<Rightarrow> None))"

section \<open>Configuration\<close>

text \<open>The environment variables that bound the queue, the timer and the logins; \<open>None\<close> is an unset one.\<close>

record config =
  env_QUEUE_TIMEOUT :: "string option"
  env_MAX_QUEUE_SIZE :: "string option"
  env_MAX_RETRIES :: "string option"

text \<open>\<open>process.env.X || dflt\<close>: an unset or empty variable gives the default.\<close>

definition envOr :: "string option \<Rightarrow> string \<Rightarrow> string" where
  "envOr v dflt = (case v of None \<Rightarrow> dflt | Some str \<Rightarrow> if str = [] then dflt else str)"

definition QUEUE_TIMEOUT :: "config \<Rightarrow> int option" where
  "QUEUE_TIMEOUT cfg = parseInt (envOr (env_QUEUE_TIMEOUT cfg) ''10000'') None"

definition MAX_QUEUE_SIZE :: "config \<Rightarrow> int option" where
  "MAX_QUEUE_SIZE cfg = parseInt (envOr (env_MAX_QUEUE_SIZE cfg) ''100'') None"

definition MAX_RETRIES :: "config \<Rightarrow> int option" where
  "MAX_RETRIES cfg = parseInt (envOr (env_MAX_RETRIES cfg) ''3'') None"

section \<open>The admission queue\<close>

datatype priority = High | Normal | Low

text \<open>
  An entry of the queue as \<open>InspectService\<close> builds it. The functions \<open>resolve\<close> and
  \<open>reject\<close> and the \<open>timeoutId\<close> of an entry belong to the request that added it;
  \<open>q_completions\<close> names these requests by their index in \<open>requests\<close> below.
\<close>

record queueItem =
  q_ms :: string
  q_d :: string
  q_completions :: "nat list"
  q_retryCount :: nat
  q_inspectUrl :: link
  q_priority :: priority

type_synonym queue = "(string \<times> queueItem) list"

datatype addResult = Ok | Coalesced | Full

text \<open>
  Modelled from the spec: \<open>QueueService.size\<close> (\<open>queue.service\<close> is not among the
  sources). The queue is keyed by asset id; its size is the number of entries.
\<close>

definition queueSize :: "queue \<Rightarrow> nat" where
  "queueSize q = length q"

text \<open>
  Modelled from the spec: \<open>QueueService.isFull\<close> (\<open>queue.service\<close> is not among the
  sources). Bounded capacity \<open>MAX_QUEUE_SIZE\<close>: the queue is full when its size has
  reached the bound. A bound that is \<open>NaN\<close> is never reached.
\<close>

definition isFull :: "config \<Rightarrow> queue \<Rightarrow> bool" where
  "isFull cfg q = (case MAX_QUEUE_SIZE cfg of None \<Rightarrow> False | Some n \<Rightarrow> n \<le> int (queueSize q))"

text \<open>
  Modelled from the spec: \<open>QueueService.add\<close> (\<open>queue.service\<close> is not among the
  sources), \<open>add(assetId, entry) \<rightarrow> Ok | Coalesced | Full\<close>: if an entry already exists
  for the asset id, the new caller's completion is attached to the existing entry; a full
  queue takes no new entry.
\<close>

definition queueAdd :: "config \<Rightarrow> string \<Rightarrow> queueItem \<Rightarrow> queue \<Rightarrow> addResult \<times> queue" where
  "queueAdd cfg assetId item q =
     (if map_of q assetId \<noteq> None
      then (Coalesced,
            map (\<lambda>(k, e). if k = assetId
                           then (k, e\<lparr>q_completions := q_completions e @ q_completions item\<rparr>)
                           else (k, e)) q)
      else if isFull cfg q then (Full, q)
      else (Ok, q @ [(assetId, item)]))"

text \<open>
  Modelled from the spec: \<open>QueueService.remove\<close> (\<open>queue.service\<close> is not among the
  sources): the entry of the asset id leaves the queue.
\<close>

definition queueRemove :: "string \<Rightarrow> queue \<Rightarrow> queue" where
  "queueRemove assetId q = filter (\<lambda>(k, e). k \<noteq> assetId) q"

text \<open>
  Modelled from the spec: \<open>QueueService.getQueueMetrics\<close> (\<open>queue.service\<close> is not
  among the sources): the entries with their priorities.
\<close>

definition getQueueMetrics :: "queue \<Rightarrow> queueItem list" where
  "getQueueMetrics q = map snd q"

section \<open>\<open>InspectService\<close>\<close>

text \<open>
  Every call of \<open>inspectItem\<close> that gets past the queue check creates a timer
  (\<open>setTimeout\<close> with \<open>QUEUE_TIMEOUT\<close>), hands the link to
  \<open>workerManagerService.inspectItem\<close> and, unless \<open>reply\<close> is \<open>false\<close>, returns a
  promise. A \<open>request\<close> is that closure: the link, the state of the timer, whether the
  worker manager's promise is still pending, and the state of the caller's promise
  (\<open>None\<close> for a background request, which has none).
\<close>

datatype kind = Awaiting | Background

datatype timer = Armed | Cleared | Fired

datatype 'f promise = Pending | Resolved 'f | Rejected HttpException

record 'f request =
  rq_kind :: kind
  rq_link :: link
  rq_priority :: priority
  rq_timer :: timer
  rq_delay :: "int option"
  rq_inFlight :: bool
  rq_promise :: "'f promise option"

text \<open>An entry of the private map \<open>inspects\<close> (without its functions and its timer).\<close>

record inspectsEntry =
  e_ms :: string
  e_d :: string
  e_retryCount :: "nat option"
  e_priority :: string

text \<open>
  The state of the service: its counters, the private map \<open>inspects\<close>, the queue
  service, the two models, the requests in progress, and the number of calls of
  \<open>workerManagerService.incrementCached\<close>.
\<close>

record 'f service =
  currentRequests :: nat
  success :: nat
  cached :: nat
  failed :: nat
  timeouts :: nat
  inspects :: "(string \<times> inspectsEntry) list"
  queueService :: queue
  models :: store
  requests :: "'f request list"
  workerManagerCached :: nat

definition initialService :: "'f service" where
  "initialService =
     \<lparr> currentRequests = 0, success = 0, cached = 0, failed = 0, timeouts = 0,
       inspects = [], queueService = [], models = \<lparr> assetModel = [], historyModel = [] \<rparr>,
       requests = [], workerManagerCached = 0 \<rparr>"

text \<open>What \<open>inspectItem\<close> returns: a cached record, the acknowledgment object, or a promise.\<close>

datatype jsval = JBool bool | JStr string

datatype 'f reply = CachedAsset 'f | Acknowledged "(string \<times> jsval) list" | Promised nat

datatype 'f outcome = Threw HttpException | Returned "'f reply"

text \<open>\<open>m !== '0' && m ? m : s\<close>.\<close>

definition msOf :: "link \<Rightarrow> string" where
  "msOf lnk = (if l_m lnk \<noteq> ''0'' \<and> l_m lnk \<noteq> [] then l_m lnk else l_s lnk)"

text \<open>
  The part that the two paths of \<open>inspectItem\<close> share: the timer is set, the entry is
  added to the queue, and the link goes to the worker manager. The new request gets the
  next index.
\<close>

definition admit :: "config \<Rightarrow> kind \<Rightarrow> link \<Rightarrow> bool option \<Rightarrow> 'f service \<Rightarrow> 'f service" where
  "admit cfg k lnk lowPriority sv =
     sv\<lparr> queueService :=
           snd (queueAdd cfg (l_a lnk)
                  \<lparr> q_ms = msOf lnk, q_d = l_d lnk, q_completions = [length (requests sv)],
                    q_retryCount = 0, q_inspectUrl = lnk,
                    q_priority = (if flag lowPriority then Low else Normal) \<rparr>
                  (queueService sv)),
         requests := requests sv @
           [\<lparr> rq_kind = k, rq_link = lnk,
              rq_priority = (if flag lowPriority then Low else Normal),
              rq_timer = Armed, rq_delay = QUEUE_TIMEOUT cfg, rq_inFlight = True,
              rq_promise = (case k of Awaiting \<Rightarrow> Some Pending | Background \<Rightarrow> None) \<rparr>] \<rparr>"

definition processInspectionInBackground ::
  "config \<Rightarrow> link \<Rightarrow> bool option \<Rightarrow> 'f service \<Rightarrow> 'f service" where
  "processInspectionInBackground cfg lnk lowPriority sv = admit cfg Background lnk lowPriority sv"

definition queueFullMessage :: "'f deps \<Rightarrow> config \<Rightarrow> queue \<Rightarrow> string" where
  "queueFullMessage dp cfg q =
     ''Queue is full ('' @ numToString dp (of_nat (queueSize q)) @ ''/'' @
     (case MAX_QUEUE_SIZE cfg of None \<Rightarrow> ''NaN'' | Some n \<Rightarrow> numToString dp (of_int n)) @
     ''), please try again later''"

definition inspectItem ::
  "'f deps \<Rightarrow> config \<Rightarrow> query \<Rightarrow> 'f service \<Rightarrow> 'f outcome \<times> 'f service" where
  "inspectItem dp cfg qy sv0 =
     (let sv = sv0\<lparr>currentRequests := currentRequests sv0 + 1\<rparr> in
      case parse dp qy of
        Inl e \<Rightarrow> (Threw e, sv)
      | Inr lnk \<Rightarrow>
          (case (if \<not> flag (qy_refresh qy)
                 then checkCache dp (models sv) (l_a lnk) (l_d lnk) else None) of
             Some cachedAsset \<Rightarrow>
               (Returned (CachedAsset cachedAsset),
                sv\<lparr>cached := cached sv + 1, workerManagerCached := workerManagerCached sv + 1\<rparr>)
           | None \<Rightarrow>
               if isFull cfg (queueService sv)
               then (Threw (HttpException (queueFullMessage dp cfg (queueService sv)) 429), sv)
               else if qy_reply qy = Some False
               then (Returned (Acknowledged
                       [(''success'', JBool True),
                        (''message'',
                         JStr ''Inspection request received and being processed in background''),
                        (''assetId'', JStr (l_a lnk))]),
                     processInspectionInBackground cfg lnk (qy_lowPriority qy) sv)
               else (Returned (Promised (length (requests sv))),
                     admit cfg Awaiting lnk (qy_lowPriority qy) sv)))"

text \<open>\<open>resolve\<close> and \<open>reject\<close> of a promise: only a pending promise changes.\<close>

definition settle :: "'f promise \<Rightarrow> 'f promise option \<Rightarrow> 'f promise option" where
  "settle v p = (case p of Some Pending \<Rightarrow> Some v | _ \<Rightarrow> p)"

text \<open>\<open>clearTimeout\<close>: a timer that has not fired is cleared.\<close>

definition clearTimeout :: "timer \<Rightarrow> timer" where
  "clearTimeout t = (case t of Armed \<Rightarrow> Cleared | _ \<Rightarrow> t)"

text \<open>
  The callback of the timer of request \<open>rid\<close>. For a request that is waited for it counts
  a timeout and rejects the promise with 504; for a background request it counts a
  timeout and removes the entry from the queue.
\<close>

definition onTimeout :: "nat \<Rightarrow> 'f service \<Rightarrow> 'f service" where
  "onTimeout rid sv =
     (if rid < length (requests sv) \<and> rq_timer (requests sv ! rid) = Armed
      then
        (let rq = requests sv ! rid in
         case rq_kind rq of
           Awaiting \<Rightarrow>
             sv\<lparr> timeouts := timeouts sv + 1,
                 requests := (requests sv)
                   [rid := rq\<lparr> rq_timer := Fired,
                               rq_promise :=
                                 settle (Rejected (HttpException ''Inspection request timed out'' 504))
                                   (rq_promise rq) \<rparr>] \<rparr>
         | Background \<Rightarrow>
             sv\<lparr> timeouts := timeouts sv + 1,
                 queueService := queueRemove (l_a (rq_link rq)) (queueService sv),
                 requests := (requests sv)[rid := rq\<lparr>rq_timer := Fired\<rparr>] \<rparr>)
      else sv)"

text \<open>
  The \<open>then\<close> handler of the worker manager's promise of request \<open>rid\<close>, called with
  the inspect result.
\<close>

definition onWorkerResult :: "'f deps \<Rightarrow> nat \<Rightarrow> response \<Rightarrow> 'f service \<Rightarrow> 'f service" where
  "onWorkerResult dp rid resp sv =
     (if rid < length (requests sv) \<and> rq_inFlight (requests sv ! rid)
      then
        (let rq = requests sv ! rid;
             lnk = rq_link rq;
             (res, st') = handleInspectResult dp resp \<lparr> i_ms = msOf lnk, i_d = l_d lnk \<rparr> (models sv)
         in case rq_kind rq of
              Awaiting \<Rightarrow>
                (case res of
                   Inr formattedResponse \<Rightarrow>
                     sv\<lparr> success := success sv + 1,
                         models := st',
                         queueService := queueRemove (l_a lnk) (queueService sv),
                         requests := (requests sv)
                           [rid := rq\<lparr> rq_timer := clearTimeout (rq_timer rq),
                                       rq_inFlight := False,
                                       rq_promise := settle (Resolved formattedResponse) (rq_promise rq) \<rparr>] \<rparr>
                 | Inl e \<Rightarrow>
                     sv\<lparr> success := success sv + 1,
                         failed := failed sv + 1,
                         models := st',
                         queueService := queueRemove (l_a lnk) (queueService sv),
                         requests := (requests sv)
                           [rid := rq\<lparr> rq_timer := clearTimeout (rq_timer rq),
                                       rq_inFlight := False,
                                       rq_promise :=
                                         settle (Rejected (HttpException
                                                   ''Error processing inspection result'' 500))
                                           (rq_promise rq) \<rparr>] \<rparr>)
            | Background \<Rightarrow>
                sv\<lparr> models := st',
                    queueService := queueRemove (l_a lnk) (queueService sv),
                    requests := (requests sv)[rid := rq\<lparr>rq_inFlight := False\<rparr>] \<rparr>)
      else sv)"

text \<open>
  The \<open>catch\<close> handler of the worker manager's promise of request \<open>rid\<close>, called with
  the message of the error.
\<close>

definition onWorkerError :: "nat \<Rightarrow> string \<Rightarrow> 'f service \<Rightarrow> 'f service" where
  "onWorkerError rid message sv =
     (if rid < length (requests sv) \<and> rq_inFlight (requests sv ! rid)
      then
        (let rq = requests sv ! rid;
             lnk = rq_link rq
         in case rq_kind rq of
              Awaiting \<Rightarrow>
                sv\<lparr> failed := failed sv + 1,
                    queueService := queueRemove (l_a lnk) (queueService sv),
                    requests := (requests sv)
                      [rid := rq\<lparr> rq_timer := clearTimeout (rq_timer rq),
                                  rq_inFlight := False,
                                  rq_promise :=
                                    settle (Rejected (HttpException
                                              (if message \<noteq> [] then message else ''Inspection failed'')
                                              504))
                                      (rq_promise rq) \<rparr>] \<rparr>
            | Background \<Rightarrow>
                sv\<lparr> queueService := queueRemove (l_a lnk) (queueService sv),
                    requests := (requests sv)[rid := rq\<lparr>rq_inFlight := False\<rparr>] \<rparr>)
      else sv)"

text \<open>
  What can happen to the service: a call of \<open>inspectItem\<close>, a timer that fires, and a
  worker manager's promise that is fulfilled or rejected. Each handler runs to its end
  before the next event; the awaits on the store inside a handler are taken as one step.
\<close>

datatype event =
    Call query
  | TimerFires nat
  | WorkerResolves nat response
  | WorkerRejects nat string

definition step :: "'f deps \<Rightarrow> config \<Rightarrow> event \<Rightarrow> 'f service \<Rightarrow> 'f service" where
  "step dp cfg ev sv =
     (case ev of
        Call qy \<Rightarrow> snd (inspectItem dp cfg qy sv)
      | TimerFires rid \<Rightarrow> onTimeout rid sv
      | WorkerResolves rid resp \<Rightarrow> onWorkerResult dp rid resp sv
      | WorkerRejects rid message \<Rightarrow> onWorkerError rid message sv)"

text \<open>The states that the service reaches from its initial state.\<close>

inductive reachable :: "'f deps \<Rightarrow> config \<Rightarrow> 'f service \<Rightarrow> bool" for dp cfg where
  initial: "reachable dp cfg initialService"
| after: "reachable dp cfg sv \<Longrightarrow> reachable dp cfg (step dp cfg ev sv)"

text \<open>
  The \<open>service.queue\<close> object of \<open>stats()\<close>: \<open>current\<close> is the size of \<open>inspects\<close>,
  \<open>max\<close> is \<open>MAX_QUEUE_SIZE\<close>, and the priorities are counted over the entries of the
  queue service.
\<close>

record queueStats =
  qs_current :: nat
  qs_max :: "int option"
  qs_high :: nat
  qs_normal :: nat
  qs_low :: nat

definition statsQueue :: "config \<Rightarrow> 'f service \<Rightarrow> queueStats" where
  "statsQueue cfg sv =
     (let items = getQueueMetrics (queueService sv) in
      \<lparr> qs_current = length (inspects sv),
        qs_max = MAX_QUEUE_SIZE cfg,
        qs_high = length (filter (\<lambda>item. q_priority item = High) items),
        qs_normal = length (filter (\<lambda>item. q_priority item = Normal) items),
        qs_low = length (filter (\<lambda>item. q_priority item = Low) items) \<rparr>)"

text \<open>Calls of \<open>inspectItem\<close> one after the other, with no other event in between.\<close>

fun submitAll ::
  "'f deps \<Rightarrow> config \<Rightarrow> query list \<Rightarrow> 'f service \<Rightarrow> 'f outcome list \<times> 'f service" where
  "submitAll dp cfg [] sv = ([], sv)"
| "submitAll dp cfg (qy # qs) sv =
     (case inspectItem dp cfg qy sv of
        (out, sv1) \<Rightarrow>
          (case submitAll dp cfg qs sv1 of (outs, sv2) \<Rightarrow> (out # outs, sv2)))"

section \<open>\<open>BotWorker.initializeBots\<close>\<close>

text \<open>
  The bot class is not among the sources. What the worker sees of it is whether
  \<open>bot.initialize()\<close> resolves or rejects, and with which message: \<open>initialize env n u p\<close>
  is the outcome of the call of \<open>initialize\<close> that is made after \<open>n\<close> earlier calls, for
  the user \<open>u\<close> with the password \<open>p\<close> (\<open>None\<close> when it resolves, the message of the
  error when it rejects). Time passes while a call is awaited: \<open>now env n\<close> is
  \<open>Date.now()\<close> after \<open>n\<close> calls.
\<close>

record botEnv =
  initialize :: "nat \<Rightarrow> string \<Rightarrow> string \<Rightarrow> string option"
  now :: "nat \<Rightarrow> int"

text \<open>
  The worker during \<open>initializeBots\<close>: the keys of the map \<open>bots\<close>, the partition
  \<open>accounts\<close>, the map \<open>throttledAccounts\<close>, the calls of \<open>initialize\<close> made so far
  (user and password), and the two counters of the method.
\<close>

record botWorker =
  bots :: "string list"
  accounts :: "string list"
  throttledAccounts :: "string \<rightharpoonup> int"
  calls :: "(string \<times> string) list"
  successCount :: nat
  failureCount :: nat

definition THROTTLE_COOLDOWN :: int where
  "THROTTLE_COOLDOWN = 30 * 60 * 1000"

text \<open>
  \<open>account.substring(0, colonIndex)\<close> and \<open>account.substring(colonIndex + 1)\<close> for
  \<open>colonIndex = account.indexOf(':')\<close>; without a colon the index is \<open>-1\<close>, the user
  name is empty and the password is the whole line.
\<close>

definition splitAccount :: "string \<Rightarrow> string \<times> string" where
  "splitAccount account =
     (if CHR '':'' \<in> set account
      then (takeWhile (\<lambda>c. c \<noteq> CHR '':'') account,
            drop 1 (dropWhile (\<lambda>c. c \<noteq> CHR '':'') account))
      else ([], account))"

text \<open>\<open>this.bots.set(username, bot)\<close> on the keys of the map.\<close>

definition setBot :: "string \<Rightarrow> string list \<Rightarrow> string list" where
  "setBot username bs = (if username \<in> set bs then bs else bs @ [username])"

text \<open>
  \<open>throttleExpiry && Date.now() < throttleExpiry\<close> for
  \<open>throttleExpiry = this.throttledAccounts.get(username)\<close>.
\<close>

definition isThrottled :: "botEnv \<Rightarrow> botWorker \<Rightarrow> string \<Rightarrow> bool" where
  "isThrottled env w username =
     (case throttledAccounts w username of
        None \<Rightarrow> False
      | Some throttleExpiry \<Rightarrow> throttleExpiry \<noteq> 0 \<and> now env (length (calls w)) < throttleExpiry)"

text \<open>
  The loop \<open>while (retryCount < this.MAX_RETRIES && !initialized)\<close> for one account. A
  call that resolves ends it (\<open>initialized = true\<close>), \<open>ACCOUNT_DISABLED\<close> and
  \<open>LOGIN_THROTTLED\<close> leave it with \<open>break\<close>, and any other error counts a retry.
\<close>

function retryLoop ::
  "botEnv \<Rightarrow> int \<Rightarrow> string \<Rightarrow> string \<Rightarrow> nat \<Rightarrow> botWorker \<Rightarrow> botWorker" where
  "retryLoop env maxRetries username password retryCount w =
     (if int retryCount < maxRetries
      then
        (case initialize env (length (calls w)) username password of
           None \<Rightarrow>
             w\<lparr> calls := calls w @ [(username, password)],
                bots := setBot username (bots w),
                successCount := successCount w + 1,
                throttledAccounts := (throttledAccounts w)(username := None) \<rparr>
         | Some message \<Rightarrow>
             (let w1 = w\<lparr> calls := calls w @ [(username, password)],
                           failureCount := failureCount w + 1 \<rparr>
              in if message = ''ACCOUNT_DISABLED''
                 then w1\<lparr>accounts := filter (\<lambda>acc. \<not> startsWith acc username) (accounts w1)\<rparr>
                 else if message = ''LOGIN_THROTTLED''
                 then w1\<lparr>throttledAccounts :=
                           (throttledAccounts w1)
                             (username \<mapsto> now env (length (calls w1)) + THROTTLE_COOLDOWN)\<rparr>
                 else retryLoop env maxRetries username password (retryCount + 1) w1))
      else w)"
  by pat_completeness auto
termination
  by (relation "measure (\<lambda>(env, maxRetries, username, password, retryCount, w).
                           nat (maxRetries - int retryCount))") auto

text \<open>
  The body of \<open>for (const account of this.accounts)\<close>. A \<open>MAX_RETRIES\<close> that is
  \<open>NaN\<close> makes the loop condition false.
\<close>

definition initAccount :: "botEnv \<Rightarrow> config \<Rightarrow> string \<Rightarrow> botWorker \<Rightarrow> botWorker" where
  "initAccount env cfg account w =
     (case splitAccount account of
        (username, password) \<Rightarrow>
          if isThrottled env w username then w
          else (case MAX_RETRIES cfg of
                  None \<Rightarrow> w
                | Some maxRetries \<Rightarrow> retryLoop env maxRetries username password 0 w))"

text \<open>
  \<open>initializeBots\<close>: the loop runs over the array that \<open>this.accounts\<close> holds when it
  starts; an assignment to \<open>this.accounts\<close> inside the loop does not change what it
  iterates over.
\<close>

definition initializeBots :: "botEnv \<Rightarrow> config \<Rightarrow> botWorker \<Rightarrow> botWorker" where
  "initializeBots env cfg w = foldl (\<lambda>w' account. initAccount env cfg account w') w (accounts w)"

text \<open>
  The worker when the loop of \<open>initializeBots\<close> has gone through the first \<open>i\<close> accounts of
  the partition it started with, and the number of calls of \<open>initialize\<close> that the loop
  makes for account number \<open>i\<close> (counted from 0).
\<close>

definition afterAccounts :: "botEnv \<Rightarrow> config \<Rightarrow> botWorker \<Rightarrow> nat \<Rightarrow> botWorker" where
  "afterAccounts env cfg w i =
     foldl (\<lambda>w' account. initAccount env cfg account w') w (take i (accounts w))"

definition attempts :: "botEnv \<Rightarrow> config \<Rightarrow> botWorker \<Rightarrow> nat \<Rightarrow> nat" where
  "attempts env cfg w i =
     length (calls (afterAccounts env cfg w (Suc i))) - length (calls (afterAccounts env cfg w i))"

section \<open>The specification's \<open>uniqueId\<close>\<close>

text \<open>
  The specification's words: the 8-hex-digit prefix of
  \<open>SHA-1("{paintSeed}-{paintIndex}-{paintWear}-{defIndex}")\<close>, with nulls normalized to
  \<open>0\<close>.
\<close>

definition uniqueIdSpec :: "'f deps \<Rightarrow> response \<Rightarrow> string" where
  "uniqueIdSpec dp resp =
     take 8 (sha1hex dp
       (numToString dp (null_to_zero (r_paintseed resp)) @ ''-'' @
        numToString dp (null_to_zero (r_paintindex resp)) @ ''-'' @
        numToString dp (null_to_zero (r_paintwear resp)) @ ''-'' @
        numToString dp (null_to_zero (r_defindex resp))))"

text \<open>The pair on which the history collection is unique.\<close>

definition historyKey :: "history \<Rightarrow> string \<times> int" where
  "historyKey h = (h_uniqueId h, h_assetId h)"

section \<open>Example inputs\<close>


text \<open>An unboxed item (origin 2) with paint seed 661, paint index 44 and wear 0.07.\<close>

definition exResponse :: response where
  "exResponse =
     \<lparr> r_itemid = ''35675800220'', r_paintseed = Some 661, r_paintindex = Some 44,
       r_paintwear = Some (7 / 100), r_defindex = Some 7, r_origin = Some 2,
       r_rarity = Some 4, r_questid = None, r_quality = Some 4, r_dropreason = None,
       r_customname = None, r_stickers = Some [], r_keychains = Some [],
       r_killeaterscoretype = None, r_killeatervalue = None, r_inventory = Some 261,
       r_petindex = None, r_musicindex = None, r_entindex = None \<rparr>"

definition exInspectData :: inspectData where
  "exInspectData = \<lparr> i_ms = ''76561198023809011'', i_d = ''4649654965632117657'' \<rparr>"

text \<open>
  Stand-ins for the collaborators, enough to run the service on an example: the query
  carries the four fields of the link, the formatted response is the \<open>uniqueId\<close> of the
  asset, and the digest and the number conversion are placeholders.
\<close>

definition exParse :: "query \<Rightarrow> HttpException + link" where
  "exParse q =
     (case qy_a q of
        None \<Rightarrow> Inl (HttpException ''Invalid inspect link'' 400)
      | Some a \<Rightarrow>
          Inr \<lparr> l_s = (case qy_s q of None \<Rightarrow> ''0'' | Some v \<Rightarrow> v), l_a = a,
                l_d = (case qy_d q of None \<Rightarrow> ''0'' | Some v \<Rightarrow> v),
                l_m = (case qy_m q of None \<Rightarrow> ''0'' | Some v \<Rightarrow> v) \<rparr>)"

definition exDeps :: "string deps" where
  "exDeps = \<lparr> sha1hex = (\<lambda>str. str), numToString = (\<lambda>n. ''n''),
              formatResponse = a_uniqueId, parse = exParse \<rparr>"

text \<open>No environment variable is set.\<close>

definition exConfig :: config where
  "exConfig = \<lparr> env_QUEUE_TIMEOUT = None, env_MAX_QUEUE_SIZE = None, env_MAX_RETRIES = None \<rparr>"

text \<open>A request for asset \<open>a\<close> with proof token \<open>d\<close> and the given \<open>reply\<close> flag.\<close>

definition exQuery :: "string \<Rightarrow> string \<Rightarrow> bool option \<Rightarrow> query" where
  "exQuery a d rep =
     \<lparr> qy_url = None, qy_s = Some ''76561198023809011'', qy_a = Some a,
       qy_d = Some d, qy_m = None,
       qy_refresh = None, qy_reply = rep, qy_lowPriority = None \<rparr>"

definition exLink :: "string \<Rightarrow> string \<Rightarrow> link" where
  "exLink a d = \<lparr> l_s = ''76561198023809011'', l_a = a, l_d = d, l_m = ''0'' \<rparr>"

text \<open>
  The asset document that \<open>exResponse\<close> and \<open>exInspectData\<close> give, with a given
  \<open>uniqueId\<close>, and the history document of its first inspection.
\<close>

definition exAsset :: asset where
  "exAsset =
     \<lparr> a_uniqueId = ''0a1b2c3d'', a_ms = ''76561198023809011'',
       a_d = ''4649654965632117657'', a_assetId = 35675800220,
       a_paintSeed = Some 661, a_paintIndex = Some 44, a_paintWear = Some (7 / 100),
       a_customName = None, a_defIndex = Some 7, a_origin = Some 2, a_rarity = Some 4,
       a_questId = None, a_stickers = Some [], a_quality = Some 4, a_keychains = Some [],
       a_killeaterScoreType = None, a_killeaterValue = None, a_inventory = Some 261,
       a_petIndex = None, a_musicIndex = None, a_entIndex = None, a_dropReason = None \<rparr>"

definition exAssetOf :: "string \<Rightarrow> asset" where
  "exAssetOf u = exAsset\<lparr>a_uniqueId := u\<rparr>"

definition exHistoryOf :: "string \<Rightarrow> history" where
  "exHistoryOf u =
     \<lparr> h_uniqueId = u, h_assetId = 35675800220, h_prevAssetId = None,
       h_owner = ''76561198023809011'', h_prevOwner = None, h_d = ''4649654965632117657'',
       h_stickers = Some [], h_keychains = Some [], h_prevStickers = None,
       h_prevKeychains = None, h_type = UNBOXED \<rparr>"

text \<open>
  The store after the first inspection of the item of \<open>exResponse\<close>, and the same item
  inspected again after a trade: Steam has given it a new asset id, and it is in the
  inventory of another user.
\<close>

definition exInspectedStore :: store where
  "exInspectedStore =
     \<lparr> assetModel = [exAssetOf (uniqueIdSpec exDeps exResponse)],
       historyModel = [exHistoryOf (uniqueIdSpec exDeps exResponse)] \<rparr>"

definition exTradedResponse :: response where
  "exTradedResponse = exResponse\<lparr>r_itemid := ''35675800999''\<rparr>"

definition exBuyerData :: inspectData where
  "exBuyerData = \<lparr> i_ms = ''76561198000000002'', i_d = ''4649654965632117657'' \<rparr>"

text \<open>A service whose store holds \<open>exAsset\<close>.\<close>

definition exCachedService :: "string service" where
  "exCachedService = initialService\<lparr>models := \<lparr> assetModel = [exAsset], historyModel = [] \<rparr>\<rparr>"

text \<open>A configuration with \<open>MAX_QUEUE_SIZE\<close> set.\<close>

definition exConfigMax :: "string \<Rightarrow> config" where
  "exConfigMax v = \<lparr> env_QUEUE_TIMEOUT = None, env_MAX_QUEUE_SIZE = Some v, env_MAX_RETRIES = None \<rparr>"

text \<open>
  Steam as four accounts meet it: \<open>alice\<close> logs in, \<open>bob\<close> is disabled, \<open>carol\<close> is
  throttled, and any other login fails with another error. A call takes a second.
\<close>

definition exEnv :: botEnv where
  "exEnv =
     \<lparr> initialize = (\<lambda>n u p.
         if u = ''alice'' then None
         else if u = ''bob'' then Some ''ACCOUNT_DISABLED''
         else if u = ''carol'' then Some ''LOGIN_THROTTLED''
         else Some ''InvalidPassword''),
       now = (\<lambda>n. 1000 * int n) \<rparr>"

definition exWorker :: botWorker where
  "exWorker =
     \<lparr> bots = [], accounts = [''alice:pw'', ''bob:x:y'', ''carol:pw'', ''dave:pw''],
       throttledAccounts = Map.empty, calls = [], successCount = 0, failureCount = 0 \<rparr>"

section \<open>Evaluation of the configuration\<close>

lemmas parseInt_eval =
  parseInt_def isWhiteSpace_def hasHexPrefix_def isDigitOf_def digitValue_def digitsValue_def

lemma exConfig_MAX_QUEUE_SIZE: "MAX_QUEUE_SIZE exConfig = Some 100"
  by (simp add: exConfig_def MAX_QUEUE_SIZE_def envOr_def parseInt_eval)

lemma exConfig_QUEUE_TIMEOUT: "QUEUE_TIMEOUT exConfig = Some 10000"
  by (simp add: exConfig_def QUEUE_TIMEOUT_def envOr_def parseInt_eval)

lemma exConfig_MAX_RETRIES: "MAX_RETRIES exConfig = Some 3"
  by (simp add: exConfig_def MAX_RETRIES_def envOr_def parseInt_eval)

lemma MAX_QUEUE_SIZE_default: "env_MAX_QUEUE_SIZE cfg = None \<Longrightarrow> MAX_QUEUE_SIZE cfg = Some 100"
  by (simp add: MAX_QUEUE_SIZE_def envOr_def parseInt_eval)

lemma MAX_RETRIES_default: "env_MAX_RETRIES cfg = None \<Longrightarrow> MAX_RETRIES cfg = Some 3"
  by (simp add: MAX_RETRIES_def envOr_def parseInt_eval)

lemma exConfigMax_0: "MAX_QUEUE_SIZE (exConfigMax ''0'') = Some 0"
  by (simp add: exConfigMax_def MAX_QUEUE_SIZE_def envOr_def parseInt_eval)

lemma exConfigMax_2: "MAX_QUEUE_SIZE (exConfigMax ''2'') = Some (int 2)"
  by (simp add: exConfigMax_def MAX_QUEUE_SIZE_def envOr_def parseInt_eval)

section \<open>The history classifier\<close>

subsection \<open>Sticker diff\<close>






subsection \<open>Owner changes\<close>

text \<open>
  Called with a prior record that carries an owner id, not empty and different from the new
  owner, \<open>getHistoryType\<close> returns \<open>TRADE\<close> if that id starts with \<open>7656\<close> and
  \<open>MARKET_BUY\<close> otherwise.
\<close>

lemma getHistoryType_with_owner:
  "p_owner h = Some prev \<Longrightarrow> prev \<noteq> [] \<Longrightarrow> prev \<noteq> i_ms insp \<Longrightarrow>
   getHistoryType resp (Some h) insp = (if startsWith prev ''7656'' then TRADE else MARKET_BUY)"
  by (simp add: getHistoryType_def ownerIsUser_def ownerPresent_def)

text \<open>
  The branch of \<open>getHistoryType\<close> that returns \<open>MARKET_LISTING\<close> is never taken: it
  asks for a previous owner that is a user and a new owner that is not, and two such
  owners differ, so the branch before it has returned already.
\<close>

lemma scanStickers_range:
  "scanStickers cur prev rest \<in> {None, Some STICKER_CHANGE, Some STICKER_REMOVE, Some STICKER_SCRAPE}"
  by (induction rest) (auto split: option.splits)

lemma detectStickerChanges_range:
  "detectStickerChanges cur prev \<in>
     {None, Some STICKER_APPLY, Some STICKER_REMOVE, Some STICKER_CHANGE, Some STICKER_SCRAPE}"
proof (cases cur)
  case None
  then show ?thesis by (simp add: detectStickerChanges_def)
next
  case (Some c)
  show ?thesis
  proof (cases prev)
    case None
    with Some show ?thesis by (simp add: detectStickerChanges_def)
  next
    case (Some p)
    with \<open>cur = Some c\<close> scanStickers_range [of c p c] show ?thesis
      by (auto simp: detectStickerChanges_def)
  qed
qed

lemma detectKeychainChanges_range:
  "detectKeychainChanges cur prev \<in>
     {None, Some KEYCHAIN_REMOVED, Some KEYCHAIN_ADDED, Some KEYCHAIN_CHANGED}"
  by (auto simp: detectKeychainChanges_def split: option.splits)

lemma getHistoryType_never_listing:
  "getHistoryType resp history insp \<noteq> MARKET_LISTING"
proof (cases history)
  case None
  then show ?thesis by (simp add: getHistoryType_def)
next
  case (Some h)
  have s: "detectStickerChanges (r_stickers resp) (p_stickers h) \<noteq> Some MARKET_LISTING"
    using detectStickerChanges_range [of "r_stickers resp" "p_stickers h"] by auto
  have k: "detectKeychainChanges (r_keychains resp) (p_keychains h) \<noteq> Some MARKET_LISTING"
    using detectKeychainChanges_range [of "r_keychains resp" "p_keychains h"] by auto
  show ?thesis
  proof (cases "p_owner h = Some (i_ms insp)")
    case True
    with Some s k show ?thesis
      by (auto simp: getHistoryType_def ownerIsUser_def ownerPresent_def split: option.splits)
  next
    case False
    with Some show ?thesis
      by (auto simp: getHistoryType_def ownerIsUser_def ownerPresent_def split: option.splits)
  qed
qed

text \<open>
  \<open>saveHistory\<close> hands the prior asset document to \<open>getHistoryType\<close>. The document
  keeps the owner in \<open>ms\<close> (which \<open>saveHistory\<close> reads for \<open>prevOwner\<close>) and has no
  \<open>owner\<close>, so a history record with a prior asset gets the type \<open>UNKNOWN\<close>.
\<close>

lemma getHistoryType_of_asset:
  "getHistoryType resp (Some (priorOfAsset x)) insp = UNKNOWN"
  by (simp add: getHistoryType_def priorOfAsset_def ownerIsUser_def ownerPresent_def)

lemma saveHistory_prior_unknown:
  assumes "saveHistory resp (Some x) insp u st = (r, st')"
  shows "historyModel st' = historyModel st \<or>
         (\<exists>h. historyModel st' = historyModel st @ [h] \<and> h_type h = UNKNOWN \<and>
              h_prevOwner h = Some (a_ms x))"
  using assms
  by (auto simp: saveHistory_def historyCreate_def getHistoryType_of_asset
           split: option.splits if_splits)

section \<open>The unique id of an asset\<close>

lemma or_zero_eq: "or_zero v = null_to_zero v"
  by (simp add: or_zero_def null_to_zero_def split: option.splits)

lemma generateUniqueId_spec:
  "generateUniqueId dp
     \<lparr> u_paintSeed = r_paintseed resp,
       u_paintIndex = Some (null_to_zero (r_paintindex resp)),
       u_paintWear = Some (null_to_zero (r_paintwear resp)),
       u_defIndex = r_defindex resp,
       u_origin = r_origin resp, u_rarity = r_rarity resp, u_questId = r_questid resp,
       u_quality = r_quality resp, u_dropReason = r_dropreason resp \<rparr>
   = uniqueIdSpec dp resp"
  by (simp add: generateUniqueId_def uniqueIdSpec_def or_zero_eq null_to_zero_def)

lemma upsertAsset_mem: "assetData \<in> set (upsertAsset assetData xs)"
  by (induction xs) auto

lemma saveAsset_stored:
  assumes "saveAsset resp insp u st = (Inr r, st')"
  shows "\<exists>x\<in>set (assetModel st').
      a_uniqueId x = u \<and>
      Some (a_assetId x) = parseInt (r_itemid resp) None \<and>
      a_paintSeed x = Some (null_to_zero (r_paintseed resp)) \<and>
      a_paintIndex x = Some (null_to_zero (r_paintindex resp)) \<and>
      a_paintWear x = Some (null_to_zero (r_paintwear resp)) \<and>
      a_defIndex x = r_defindex resp"
proof (cases "parseInt (r_itemid resp) None")
  case None
  with assms show ?thesis by (simp add: saveAsset_def)
next
  case (Some assetId)
  with assms show ?thesis
    by (auto simp: saveAsset_def Let_def intro!: bexI [OF _ upsertAsset_mem])
qed

lemma handleInspectResult_saved:
  assumes "handleInspectResult dp resp insp st = (Inr out, st')"
  shows "\<exists>st1 x. saveAsset resp insp (uniqueIdSpec dp resp) st1 = (Inr (Some x), st')"
  using assms
  unfolding handleInspectResult_def generateUniqueId_spec Let_def
  by (auto split: if_splits prod.splits sum.splits option.splits)

lemma exResponse_itemid: "parseInt (r_itemid exResponse) None = Some 35675800220"
  by (simp add: exResponse_def parseInt_eval)

lemma ex_saveHistory:
  "saveHistory exResponse None exInspectData u \<lparr> assetModel = [], historyModel = [] \<rparr> =
     (Inr (), \<lparr> assetModel = [], historyModel = [exHistoryOf u] \<rparr>)"
  by (simp add: saveHistory_def exResponse_itemid historyCreate_def exHistoryOf_def
        getHistoryType_def)
     (simp add: exResponse_def exInspectData_def)

lemma ex_saveAsset:
  "saveAsset exResponse exInspectData u \<lparr> assetModel = [], historyModel = hs \<rparr> =
     (Inr (Some (exAssetOf u)), \<lparr> assetModel = [exAssetOf u], historyModel = hs \<rparr>)"
  by (simp add: saveAsset_def exResponse_itemid Let_def exAssetOf_def exAsset_def)
     (simp add: exResponse_def exInspectData_def null_to_zero_def)

lemma ex_handleInspectResult:
  "handleInspectResult dp exResponse exInspectData \<lparr> assetModel = [], historyModel = [] \<rparr> =
     (Inr (formatResponse dp (exAssetOf (uniqueIdSpec dp exResponse))),
      \<lparr> assetModel = [exAssetOf (uniqueIdSpec dp exResponse)],
        historyModel = [exHistoryOf (uniqueIdSpec dp exResponse)] \<rparr>)"
proof -
  have c: "truthy (r_paintseed exResponse) \<and> r_paintwear exResponse \<noteq> None \<and>
           r_paintindex exResponse \<noteq> None"
    by (simp add: exResponse_def truthy_def)
  have f: "findHistory exResponse \<lparr> assetModel = [], historyModel = [] \<rparr> = None"
    by (simp add: findHistory_def)
  show ?thesis
    unfolding handleInspectResult_def generateUniqueId_spec Let_def
    using c by (simp add: f ex_saveHistory ex_saveAsset)
qed

text \<open>
  C1. Whenever \<open>handleInspectResult\<close> succeeds, the store holds an asset for the item
  whose \<open>uniqueId\<close> is the first 8 characters of the SHA-1 hex digest of the paint seed,
  paint index, paint wear and definition index joined by \<open>-\<close>, each \<open>null\<close> among them
  replaced by \<open>0\<close>; its stored paint seed, index and wear are the normalized values.
\<close>

theorem handleInspectResult_uniqueId:
  assumes "handleInspectResult dp resp insp st = (Inr out, st')"
  shows "\<exists>x\<in>set (assetModel st').
      a_uniqueId x = uniqueIdSpec dp resp \<and>
      Some (a_assetId x) = parseInt (r_itemid resp) None \<and>
      a_paintSeed x = Some (null_to_zero (r_paintseed resp)) \<and>
      a_paintIndex x = Some (null_to_zero (r_paintindex resp)) \<and>
      a_paintWear x = Some (null_to_zero (r_paintwear resp)) \<and>
      a_defIndex x = r_defindex resp"
proof -
  from handleInspectResult_saved [OF assms] obtain st1 x
    where "saveAsset resp insp (uniqueIdSpec dp resp) st1 = (Inr (Some x), st')" by blast
  then show ?thesis by (rule saveAsset_stored)
qed

theorem handleInspectResult_uniqueId_witness:
  "\<forall>dp. handleInspectResult dp exResponse exInspectData \<lparr> assetModel = [], historyModel = [] \<rparr> =
          (Inr (formatResponse dp (exAssetOf (uniqueIdSpec dp exResponse))),
           \<lparr> assetModel = [exAssetOf (uniqueIdSpec dp exResponse)],
             historyModel = [exHistoryOf (uniqueIdSpec dp exResponse)] \<rparr>) \<and>
        a_uniqueId (exAssetOf (uniqueIdSpec dp exResponse)) =
          take 8 (sha1hex dp (numToString dp 661 @ ''-'' @ numToString dp 44 @ ''-'' @
                              numToString dp (7 / 100) @ ''-'' @ numToString dp 7))"
proof
  fix dp :: "'f deps"
  from handleInspectResult_uniqueId [OF ex_handleInspectResult [of dp]]
  have "a_uniqueId (exAssetOf (uniqueIdSpec dp exResponse)) = uniqueIdSpec dp exResponse"
    by simp
  then show "handleInspectResult dp exResponse exInspectData \<lparr> assetModel = [], historyModel = [] \<rparr> =
          (Inr (formatResponse dp (exAssetOf (uniqueIdSpec dp exResponse))),
           \<lparr> assetModel = [exAssetOf (uniqueIdSpec dp exResponse)],
             historyModel = [exHistoryOf (uniqueIdSpec dp exResponse)] \<rparr>) \<and>
        a_uniqueId (exAssetOf (uniqueIdSpec dp exResponse)) =
          take 8 (sha1hex dp (numToString dp 661 @ ''-'' @ numToString dp 44 @ ''-'' @
                              numToString dp (7 / 100) @ ''-'' @ numToString dp 7))"
    by (simp add: ex_handleInspectResult)
       (simp add: uniqueIdSpec_def exResponse_def null_to_zero_def)
qed

section \<open>The paths of \<open>inspectItem\<close>\<close>

lemma inspectItem_threw_parse:
  "parse dp qy = Inl e \<Longrightarrow>
   inspectItem dp cfg qy sv = (Threw e, sv\<lparr>currentRequests := currentRequests sv + 1\<rparr>)"
  by (simp add: inspectItem_def Let_def)

lemma inspectItem_cached:
  "parse dp qy = Inr lnk \<Longrightarrow> \<not> flag (qy_refresh qy) \<Longrightarrow>
   checkCache dp (models sv) (l_a lnk) (l_d lnk) = Some r \<Longrightarrow>
   inspectItem dp cfg qy sv =
     (Returned (CachedAsset r),
      sv\<lparr>currentRequests := currentRequests sv + 1, cached := cached sv + 1,
         workerManagerCached := workerManagerCached sv + 1\<rparr>)"
  by (simp add: inspectItem_def Let_def)

lemma inspectItem_full:
  "parse dp qy = Inr lnk \<Longrightarrow>
   flag (qy_refresh qy) \<or> checkCache dp (models sv) (l_a lnk) (l_d lnk) = None \<Longrightarrow>
   isFull cfg (queueService sv) \<Longrightarrow>
   inspectItem dp cfg qy sv =
     (Threw (HttpException (queueFullMessage dp cfg (queueService sv)) 429),
      sv\<lparr>currentRequests := currentRequests sv + 1\<rparr>)"
  by (auto simp: inspectItem_def Let_def)

lemma inspectItem_background:
  "parse dp qy = Inr lnk \<Longrightarrow>
   flag (qy_refresh qy) \<or> checkCache dp (models sv) (l_a lnk) (l_d lnk) = None \<Longrightarrow>
   \<not> isFull cfg (queueService sv) \<Longrightarrow> qy_reply qy = Some False \<Longrightarrow>
   inspectItem dp cfg qy sv =
     (Returned (Acknowledged
        [(''success'', JBool True),
         (''message'', JStr ''Inspection request received and being processed in background''),
         (''assetId'', JStr (l_a lnk))]),
      admit cfg Background lnk (qy_lowPriority qy)
        (sv\<lparr>currentRequests := currentRequests sv + 1\<rparr>))"
  by (auto simp: inspectItem_def Let_def processInspectionInBackground_def)

lemma inspectItem_awaiting:
  "parse dp qy = Inr lnk \<Longrightarrow>
   flag (qy_refresh qy) \<or> checkCache dp (models sv) (l_a lnk) (l_d lnk) = None \<Longrightarrow>
   \<not> isFull cfg (queueService sv) \<Longrightarrow> qy_reply qy \<noteq> Some False \<Longrightarrow>
   inspectItem dp cfg qy sv =
     (Returned (Promised (length (requests sv))),
      admit cfg Awaiting lnk (qy_lowPriority qy)
        (sv\<lparr>currentRequests := currentRequests sv + 1\<rparr>))"
  by (auto simp: inspectItem_def Let_def)

lemma map_of_coalesce:
  "map_of (map (\<lambda>(k, e). if k = a then (k, f e) else (k, e)) q) a = map_option f (map_of q a)"
  by (induction q) auto

lemma queueAdd_new:
  "map_of q a = None \<Longrightarrow> \<not> isFull cfg q \<Longrightarrow> queueAdd cfg a item q = (Ok, q @ [(a, item)])"
  by (simp add: queueAdd_def)

lemma queueAdd_has_entry:
  "\<not> isFull cfg q \<Longrightarrow> map_of (snd (queueAdd cfg a item q)) a \<noteq> None"
  by (cases "map_of q a") (auto simp: queueAdd_def map_of_coalesce map_add_def)

lemma admit_requests:
  "requests (admit cfg k lnk lp sv) =
     requests sv @
       [\<lparr> rq_kind = k, rq_link = lnk, rq_priority = (if flag lp then Low else Normal),
          rq_timer = Armed, rq_delay = QUEUE_TIMEOUT cfg, rq_inFlight = True,
          rq_promise = (case k of Awaiting \<Rightarrow> Some Pending | Background \<Rightarrow> None) \<rparr>]"
  by (simp add: admit_def)

lemma admit_models: "models (admit cfg k lnk lp sv) = models sv"
  by (simp add: admit_def)

lemma admit_timeouts: "timeouts (admit cfg k lnk lp sv) = timeouts sv"
  by (simp add: admit_def)

lemma admit_queue_has_entry:
  "\<not> isFull cfg (queueService sv) \<Longrightarrow> map_of (queueService (admit cfg k lnk lp sv)) (l_a lnk) \<noteq> None"
  by (simp add: admit_def queueAdd_has_entry)

lemma admit_queue_new:
  "map_of (queueService sv) (l_a lnk) = None \<Longrightarrow> \<not> isFull cfg (queueService sv) \<Longrightarrow>
   queueService (admit cfg k lnk lp sv) =
     queueService sv @
       [(l_a lnk, \<lparr> q_ms = msOf lnk, q_d = l_d lnk, q_completions = [length (requests sv)],
                   q_retryCount = 0, q_inspectUrl = lnk,
                   q_priority = (if flag lp then Low else Normal) \<rparr>)]"
  by (simp add: admit_def queueAdd_new)

lemma exDeps_parse: "parse exDeps (exQuery a d rep) = Inr (exLink a d)"
  by (simp add: exDeps_def exParse_def exQuery_def exLink_def)

lemma ex_not_full: "\<not> isFull exConfig (queueService initialService)"
  by (simp add: isFull_def exConfig_MAX_QUEUE_SIZE queueSize_def initialService_def)

lemma ex_cache_miss: "checkCache dp (models initialService) a d = None"
  by (simp add: checkCache_def initialService_def split: option.splits)

lemma ex_call_awaiting:
  "inspectItem exDeps exConfig (exQuery a d None) initialService =
     (Returned (Promised 0),
      admit exConfig Awaiting (exLink a d) None
        (initialService\<lparr>currentRequests := 1\<rparr>))"
  using inspectItem_awaiting [OF exDeps_parse disjI2 [OF ex_cache_miss], of exConfig a d None]
  by (simp add: ex_not_full) (simp add: exQuery_def initialService_def)

lemma ex_msOf: "\<lparr> i_ms = msOf (exLink a d), i_d = l_d (exLink a d) \<rparr> = \<lparr> i_ms = ''76561198023809011'', i_d = d \<rparr>"
  by (simp add: msOf_def exLink_def)

section \<open>History records\<close>

lemma saveHistory_history:
  assumes "saveHistory resp h insp u st = (r, st')"
  shows "historyModel st' = historyModel st \<or>
         (\<exists>x. historyModel st' = historyModel st @ [x] \<and> h_uniqueId x = u \<and>
              parseInt (r_itemid resp) None = Some (h_assetId x) \<and>
              (\<forall>y\<in>set (historyModel st). h_assetId y \<noteq> h_assetId x))"
proof (cases "parseInt (r_itemid resp) None")
  case None
  with assms show ?thesis by (simp add: saveHistory_def)
next
  case (Some assetId)
  show ?thesis
  proof (cases "find (\<lambda>h. h_assetId h = assetId) (historyModel st)")
    case (Some existing)
    with assms \<open>parseInt (r_itemid resp) None = Some assetId\<close> show ?thesis
      by (simp add: saveHistory_def)
  next
    case None
    then have fresh: "\<forall>y\<in>set (historyModel st). h_assetId y \<noteq> assetId"
      by (simp add: find_None_iff)
    with assms None \<open>parseInt (r_itemid resp) None = Some assetId\<close> show ?thesis
      by (auto simp: saveHistory_def historyCreate_def list_ex_iff split: if_splits)
  qed
qed

lemma saveAsset_history:
  "saveAsset resp insp u st = (r, st') \<Longrightarrow> historyModel st' = historyModel st"
  by (auto simp: saveAsset_def Let_def split: option.splits)

lemma handleInspectResult_history:
  assumes "handleInspectResult dp resp insp st = (res, st')"
  shows "historyModel st' = historyModel st \<or>
         (\<exists>x. historyModel st' = historyModel st @ [x] \<and>
              truthy (r_paintseed resp) \<and> r_paintwear resp \<noteq> None \<and>
              r_paintindex resp \<noteq> None \<and>
              h_uniqueId x = uniqueIdSpec dp resp \<and>
              parseInt (r_itemid resp) None = Some (h_assetId x) \<and>
              (\<forall>y\<in>set (historyModel st). h_assetId y \<noteq> h_assetId x))"
proof (cases "truthy (r_paintseed resp) \<and> r_paintwear resp \<noteq> None \<and> r_paintindex resp \<noteq> None")
  case False
  with assms have "\<exists>r. saveAsset resp insp (uniqueIdSpec dp resp) st = (r, st')"
    unfolding handleInspectResult_def generateUniqueId_spec Let_def
    by (auto split: prod.splits sum.splits option.splits)
  then show ?thesis by (auto dest: saveAsset_history)
next
  case True
  obtain r1 st1 where sh: "saveHistory resp (findHistory resp st) insp (uniqueIdSpec dp resp) st = (r1, st1)"
    by (cases "saveHistory resp (findHistory resp st) insp (uniqueIdSpec dp resp) st") blast
  have "historyModel st' = historyModel st1"
    using assms True sh
    unfolding handleInspectResult_def generateUniqueId_spec Let_def
    by (auto split: prod.splits sum.splits option.splits dest: saveAsset_history)
  with saveHistory_history [OF sh] True show ?thesis by auto
qed

lemma inspectItem_models: "models (snd (inspectItem dp cfg qy sv)) = models sv"
  by (simp add: inspectItem_def Let_def processInspectionInBackground_def admit_def
           split: sum.splits option.splits)

lemma onTimeout_models: "models (onTimeout rid sv) = models sv"
  by (simp add: onTimeout_def Let_def split: kind.splits)

lemma onWorkerError_models: "models (onWorkerError rid msg sv) = models sv"
  by (simp add: onWorkerError_def Let_def split: kind.splits)

lemma onWorkerResult_models:
  "models (onWorkerResult dp rid resp sv) = models sv \<or>
   models (onWorkerResult dp rid resp sv) =
     snd (handleInspectResult dp resp
            \<lparr> i_ms = msOf (rq_link (requests sv ! rid)), i_d = l_d (rq_link (requests sv ! rid)) \<rparr>
            (models sv))"
  by (simp add: onWorkerResult_def Let_def split: kind.splits sum.splits prod.splits)

lemma step_history:
  "historyModel (models (step dp cfg ev sv)) = historyModel (models sv) \<or>
   (\<exists>rid resp x. ev = WorkerResolves rid resp \<and>
      historyModel (models (step dp cfg ev sv)) = historyModel (models sv) @ [x] \<and>
      truthy (r_paintseed resp) \<and> r_paintwear resp \<noteq> None \<and> r_paintindex resp \<noteq> None \<and>
      h_uniqueId x = uniqueIdSpec dp resp \<and>
      parseInt (r_itemid resp) None = Some (h_assetId x) \<and>
      (\<forall>y\<in>set (historyModel (models sv)). h_assetId y \<noteq> h_assetId x))"
proof (cases ev)
  case (Call qy)
  then show ?thesis by (simp add: step_def inspectItem_models)
next
  case (TimerFires rid)
  then show ?thesis by (simp add: step_def onTimeout_models)
next
  case (WorkerRejects rid msg)
  then show ?thesis by (simp add: step_def onWorkerError_models)
next
  case (WorkerResolves rid resp)
  let ?insp = "\<lparr> i_ms = msOf (rq_link (requests sv ! rid)), i_d = l_d (rq_link (requests sv ! rid)) \<rparr>"
  from onWorkerResult_models [of dp rid resp sv]
  show ?thesis
  proof
    assume "models (onWorkerResult dp rid resp sv) = models sv"
    with WorkerResolves show ?thesis by (simp add: step_def)
  next
    assume m: "models (onWorkerResult dp rid resp sv) = snd (handleInspectResult dp resp ?insp (models sv))"
    have "handleInspectResult dp resp ?insp (models sv) =
            (fst (handleInspectResult dp resp ?insp (models sv)),
             snd (handleInspectResult dp resp ?insp (models sv)))" by simp
    from handleInspectResult_history [OF this] m WorkerResolves
    show ?thesis by (auto simp: step_def)
  qed
qed

lemma step_distinct:
  assumes "distinct (map h_assetId (historyModel (models sv)))"
  shows "distinct (map h_assetId (historyModel (models (step dp cfg ev sv))))"
proof -
  from step_history [of dp cfg ev sv]
  consider "historyModel (models (step dp cfg ev sv)) = historyModel (models sv)"
    | x where "historyModel (models (step dp cfg ev sv)) = historyModel (models sv) @ [x]"
        and "\<forall>y\<in>set (historyModel (models sv)). h_assetId y \<noteq> h_assetId x"
    by blast
  then show ?thesis
  proof cases
    case 1
    with assms show ?thesis by simp
  next
    case 2
    with assms show ?thesis by auto
  qed
qed

lemma reachable_distinct:
  "reachable dp cfg sv \<Longrightarrow> distinct (map h_assetId (historyModel (models sv)))"
  by (induction rule: reachable.induct) (simp_all add: initialService_def step_distinct)

lemma distinct_keys:
  "distinct (map h_assetId hs) \<Longrightarrow> distinct (map historyKey hs)"
  by (induction hs) (auto simp: historyKey_def)

text \<open>
  C3. In every reachable state of the service the history records are pairwise different
  on \<open>(uniqueId, assetId)\<close>, and every step leaves the history collection as it is or
  appends one record to it. A record is appended only by an inspect result whose paint
  seed, paint wear and paint index are all present, and only when no history record with
  the item's asset id exists already; it carries the item's \<open>uniqueId\<close> and asset id.
\<close>

theorem history_append_only:
  assumes "reachable dp cfg sv"
  shows "distinct (map historyKey (historyModel (models sv))) \<and>
         (historyModel (models (step dp cfg ev sv)) = historyModel (models sv) \<or>
          (\<exists>rid resp x. ev = WorkerResolves rid resp \<and>
             historyModel (models (step dp cfg ev sv)) = historyModel (models sv) @ [x] \<and>
             truthy (r_paintseed resp) \<and> r_paintwear resp \<noteq> None \<and>
             r_paintindex resp \<noteq> None \<and>
             h_uniqueId x = uniqueIdSpec dp resp \<and>
             parseInt (r_itemid resp) None = Some (h_assetId x) \<and>
             (\<forall>y\<in>set (historyModel (models sv)). h_assetId y \<noteq> h_assetId x)))"
  using reachable_distinct [OF assms] step_history [of dp cfg ev sv]
  by (simp add: distinct_keys)

theorem history_append_only_witness:
  "reachable exDeps exConfig
     (step exDeps exConfig (Call (exQuery ''35675800220'' ''4649654965632117657'' None))
        initialService) \<and>
   distinct (map historyKey (historyModel (models
     (step exDeps exConfig (Call (exQuery ''35675800220'' ''4649654965632117657'' None))
        initialService)))) \<and>
   historyModel (models
     (step exDeps exConfig (Call (exQuery ''35675800220'' ''4649654965632117657'' None))
        initialService)) = [] \<and>
   historyModel (models
     (step exDeps exConfig (WorkerResolves 0 exResponse)
        (step exDeps exConfig (Call (exQuery ''35675800220'' ''4649654965632117657'' None))
           initialService))) = [exHistoryOf (uniqueIdSpec exDeps exResponse)] \<and>
   truthy (r_paintseed exResponse) \<and> r_paintwear exResponse \<noteq> None \<and>
   r_paintindex exResponse \<noteq> None \<and>
   h_type (exHistoryOf (uniqueIdSpec exDeps exResponse)) = UNBOXED"
proof -
  let ?sv1 = "admit exConfig Awaiting (exLink ''35675800220'' ''4649654965632117657'') None
        ((initialService :: string service)\<lparr>currentRequests := 1\<rparr>)"
  have s1: "step exDeps exConfig (Call (exQuery ''35675800220'' ''4649654965632117657'' None))
         initialService = ?sv1"
    by (simp add: step_def ex_call_awaiting)
  have r: "reachable exDeps exConfig ?sv1"
    unfolding s1 [symmetric] by (intro reachable.after reachable.initial)
  have m: "models ?sv1 = \<lparr> assetModel = [], historyModel = [] \<rparr>"
    by (simp add: admit_models initialService_def)
  from history_append_only [OF r, of "WorkerResolves 0 exResponse"]
  have dk: "distinct (map historyKey (historyModel (models ?sv1)))"
    by blast
  have rq: "requests ?sv1 =
       [\<lparr> rq_kind = Awaiting, rq_link = exLink ''35675800220'' ''4649654965632117657'',
          rq_priority = Normal, rq_timer = Armed, rq_delay = Some 10000, rq_inFlight = True,
          rq_promise = Some Pending \<rparr>]"
    by (simp add: admit_requests exConfig_QUEUE_TIMEOUT flag_def initialService_def)
  have h: "historyModel (models (step exDeps exConfig (WorkerResolves 0 exResponse) ?sv1)) =
             [exHistoryOf (uniqueIdSpec exDeps exResponse)]"
    using ex_handleInspectResult [of exDeps]
    by (simp add: step_def onWorkerResult_def rq m ex_msOf Let_def exInspectData_def
          del: One_nat_def)
  have c: "truthy (r_paintseed exResponse) \<and> r_paintwear exResponse \<noteq> None \<and>
           r_paintindex exResponse \<noteq> None"
    by (simp add: exResponse_def truthy_def)
  have t: "h_type (exHistoryOf (uniqueIdSpec exDeps exResponse)) = UNBOXED"
    by (simp add: exHistoryOf_def)
  from m have e: "historyModel (models ?sv1) = []" by simp
  show ?thesis
    unfolding s1 using r dk e h c t by blast
qed

subsection \<open>The type of a record with a prior asset\<close>

lemma exTradedResponse_itemid: "parseInt (r_itemid exTradedResponse) None = Some 35675800999"
  by (simp add: exTradedResponse_def parseInt_eval)

lemma exTradedResponse_present:
  "truthy (r_paintseed exTradedResponse) \<and> r_paintwear exTradedResponse \<noteq> None \<and>
   r_paintindex exTradedResponse \<noteq> None"
  by (simp add: exTradedResponse_def exResponse_def truthy_def)

lemma exInspectedStore_fresh:
  "find (\<lambda>h. h_assetId h = 35675800999) (historyModel exInspectedStore) = None"
  by (simp add: exInspectedStore_def exHistoryOf_def)

lemma exInspectedStore_prior:
  "findHistory exTradedResponse exInspectedStore = Some (exAssetOf (uniqueIdSpec exDeps exResponse))"
  by (simp add: findHistory_def exInspectedStore_def exAssetOf_def exAsset_def
        exTradedResponse_def exResponse_def)

lemma exInspectedStore_reached:
  "snd (handleInspectResult exDeps exResponse exInspectData
          \<lparr> assetModel = [], historyModel = [] \<rparr>) = exInspectedStore"
  by (simp add: ex_handleInspectResult exInspectedStore_def)

text \<open>
  C2. The code does not classify an owner change. When \<open>handleInspectResult\<close> gets a
  result whose paint seed, wear and index are present, whose asset id has no history record
  yet, and for which \<open>findHistory\<close> finds a prior asset \<open>x\<close>, it appends one history
  record: the previous owner is the \<open>ms\<close> of \<open>x\<close>, the owner is the new one, and the type
  is \<open>UNKNOWN\<close>, whoever the two owners are. It is neither \<open>TRADE\<close> nor \<open>MARKET_BUY\<close>
  nor \<open>MARKET_LISTING\<close>, because \<open>getHistoryType\<close> reads \<open>history.owner\<close>, a path
  that the asset document it is given does not have.
\<close>

theorem handleInspectResult_prior_unknown:
  assumes c: "truthy (r_paintseed resp)" "r_paintwear resp \<noteq> None" "r_paintindex resp \<noteq> None"
    and a: "parseInt (r_itemid resp) None = Some a"
    and n: "find (\<lambda>h. h_assetId h = a) (historyModel st) = None"
    and x: "findHistory resp st = Some x"
  shows "historyModel (snd (handleInspectResult dp resp insp st)) =
           historyModel st @
             [\<lparr> h_uniqueId = uniqueIdSpec dp resp, h_assetId = a,
                h_prevAssetId = Some (a_assetId x), h_owner = i_ms insp,
                h_prevOwner = Some (a_ms x), h_d = i_d insp,
                h_stickers = r_stickers resp, h_keychains = r_keychains resp,
                h_prevStickers = a_stickers x, h_prevKeychains = a_keychains x,
                h_type = UNKNOWN \<rparr>]"
proof -
  let ?U = "uniqueIdSpec dp resp"
  let ?H = "\<lparr> h_uniqueId = ?U, h_assetId = a,
                h_prevAssetId = Some (a_assetId x), h_owner = i_ms insp,
                h_prevOwner = Some (a_ms x), h_d = i_d insp,
                h_stickers = r_stickers resp, h_keychains = r_keychains resp,
                h_prevStickers = a_stickers x, h_prevKeychains = a_keychains x,
                h_type = UNKNOWN \<rparr>"
  let ?st1 = "st\<lparr>historyModel := historyModel st @ [?H]\<rparr>"
  from n have fresh: "\<not> list_ex (\<lambda>y. h_uniqueId y = ?U \<and> h_assetId y = a) (historyModel st)"
    by (auto simp: list_ex_iff find_None_iff)
  have sh: "saveHistory resp (Some x) insp ?U st = (Inr (), ?st1)"
    using fresh by (simp add: saveHistory_def a n historyCreate_def getHistoryType_of_asset)
  obtain r st2 where sa: "saveAsset resp insp ?U ?st1 = (r, st2)"
    by (cases "saveAsset resp insp ?U ?st1") blast
  from saveAsset_history [OF sa] have h2: "historyModel st2 = historyModel st @ [?H]"
    by simp
  have "snd (handleInspectResult dp resp insp st) = st2"
    unfolding handleInspectResult_def generateUniqueId_spec Let_def
    using c by (simp add: x sh sa split: sum.splits option.splits)
  with h2 show ?thesis by simp
qed

text \<open>
  A trade: the item of \<open>exResponse\<close> is inspected in the inventory of one user, and then,
  under its new asset id, in the inventory of another. The second history record has the
  first user as previous owner and the type \<open>UNKNOWN\<close>.
\<close>

theorem handleInspectResult_prior_unknown_witness:
  "snd (handleInspectResult exDeps exResponse exInspectData
          \<lparr> assetModel = [], historyModel = [] \<rparr>) = exInspectedStore \<and>
   truthy (r_paintseed exTradedResponse) \<and> r_paintwear exTradedResponse \<noteq> None \<and>
   r_paintindex exTradedResponse \<noteq> None \<and>
   parseInt (r_itemid exTradedResponse) None = Some 35675800999 \<and>
   find (\<lambda>h. h_assetId h = 35675800999) (historyModel exInspectedStore) = None \<and>
   findHistory exTradedResponse exInspectedStore =
     Some (exAssetOf (uniqueIdSpec exDeps exResponse)) \<and>
   startsWith (a_ms (exAssetOf (uniqueIdSpec exDeps exResponse))) ''7656'' \<and>
   a_ms (exAssetOf (uniqueIdSpec exDeps exResponse)) \<noteq> i_ms exBuyerData \<and>
   map h_owner (historyModel (snd (handleInspectResult exDeps exTradedResponse exBuyerData
     exInspectedStore))) = [''76561198023809011'', ''76561198000000002''] \<and>
   map h_prevOwner (historyModel (snd (handleInspectResult exDeps exTradedResponse exBuyerData
     exInspectedStore))) = [None, Some ''76561198023809011''] \<and>
   map h_type (historyModel (snd (handleInspectResult exDeps exTradedResponse exBuyerData
     exInspectedStore))) = [UNBOXED, UNKNOWN]"
proof -
  note p = exTradedResponse_present
  note h = handleInspectResult_prior_unknown
             [OF p [THEN conjunct1] p [THEN conjunct2, THEN conjunct1]
                 p [THEN conjunct2, THEN conjunct2] exTradedResponse_itemid
                 exInspectedStore_fresh exInspectedStore_prior, of exDeps exBuyerData]
  have o: "startsWith (a_ms (exAssetOf (uniqueIdSpec exDeps exResponse))) ''7656'' \<and>
           a_ms (exAssetOf (uniqueIdSpec exDeps exResponse)) \<noteq> i_ms exBuyerData"
    by (simp add: exAssetOf_def exAsset_def exBuyerData_def startsWith_def)
  have m: "map h_owner (historyModel (snd (handleInspectResult exDeps exTradedResponse exBuyerData
             exInspectedStore))) = [''76561198023809011'', ''76561198000000002''] \<and>
           map h_prevOwner (historyModel (snd (handleInspectResult exDeps exTradedResponse exBuyerData
             exInspectedStore))) = [None, Some ''76561198023809011''] \<and>
           map h_type (historyModel (snd (handleInspectResult exDeps exTradedResponse exBuyerData
             exInspectedStore))) = [UNBOXED, UNKNOWN]"
    unfolding h
    by (simp add: exInspectedStore_def exHistoryOf_def exAssetOf_def exAsset_def exBuyerData_def)
  from exInspectedStore_reached p exTradedResponse_itemid exInspectedStore_fresh
    exInspectedStore_prior o m
  show ?thesis by (intro conjI) (elim conjE, assumption)+
qed

section \<open>Requests that do not wait for the result\<close>

text \<open>
  C4 (as the code has it). For a request with \<open>reply = false\<close> that is not served from
  the cache and meets a queue that is not full, \<open>inspectItem\<close> returns at once the object
  \<open>{success: true, message: ..., assetId}\<close>; by then the entry is in the queue, and a
  background request with a running timer is with the worker manager. The store is not
  touched before the worker manager answers.
\<close>

theorem inspectItem_reply_false:
  assumes "parse dp qy = Inr lnk"
    and "qy_reply qy = Some False"
    and "flag (qy_refresh qy) \<or> checkCache dp (models sv) (l_a lnk) (l_d lnk) = None"
    and "\<not> isFull cfg (queueService sv)"
  shows "\<exists>sv'. inspectItem dp cfg qy sv =
           (Returned (Acknowledged
              [(''success'', JBool True),
               (''message'', JStr ''Inspection request received and being processed in background''),
               (''assetId'', JStr (l_a lnk))]), sv') \<and>
         map_of (queueService sv') (l_a lnk) \<noteq> None \<and>
         requests sv' = requests sv @
           [\<lparr> rq_kind = Background, rq_link = lnk,
              rq_priority = (if flag (qy_lowPriority qy) then Low else Normal),
              rq_timer = Armed, rq_delay = QUEUE_TIMEOUT cfg, rq_inFlight = True,
              rq_promise = None \<rparr>] \<and>
         models sv' = models sv"
proof -
  let ?sv' = "admit cfg Background lnk (qy_lowPriority qy)
                (sv\<lparr>currentRequests := currentRequests sv + 1\<rparr>)"
  have "map_of (queueService ?sv') (l_a lnk) \<noteq> None"
    using assms(4) by (intro admit_queue_has_entry) simp
  moreover have "inspectItem dp cfg qy sv =
           (Returned (Acknowledged
              [(''success'', JBool True),
               (''message'', JStr ''Inspection request received and being processed in background''),
               (''assetId'', JStr (l_a lnk))]), ?sv')"
    using assms by (intro inspectItem_background) simp_all
  ultimately show ?thesis
    by (intro exI [of _ ?sv']) (simp add: admit_requests admit_models)
qed

theorem inspectItem_reply_false_witness:
  "parse exDeps (exQuery ''35675800220'' ''4649654965632117657'' (Some False))
     = Inr (exLink ''35675800220'' ''4649654965632117657'') \<and>
   \<not> isFull exConfig (queueService initialService) \<and>
   (\<exists>sv'. inspectItem exDeps exConfig
            (exQuery ''35675800220'' ''4649654965632117657'' (Some False)) initialService =
           (Returned (Acknowledged
              [(''success'', JBool True),
               (''message'', JStr ''Inspection request received and being processed in background''),
               (''assetId'', JStr ''35675800220'')]), sv') \<and>
         map_of (queueService sv') ''35675800220'' \<noteq> None \<and>
         requests sv' =
           [\<lparr> rq_kind = Background, rq_link = exLink ''35675800220'' ''4649654965632117657'',
              rq_priority = Normal, rq_timer = Armed, rq_delay = Some 10000, rq_inFlight = True,
              rq_promise = None \<rparr>] \<and>
         models sv' = \<lparr> assetModel = [], historyModel = [] \<rparr>)"
  using inspectItem_reply_false
          [of exDeps "exQuery ''35675800220'' ''4649654965632117657'' (Some False)"
              "exLink ''35675800220'' ''4649654965632117657''" initialService exConfig,
           OF exDeps_parse _ disjI2 [OF ex_cache_miss] ex_not_full]
        ex_not_full
  by (simp add: exDeps_parse exConfig_QUEUE_TIMEOUT flag_def)
     (simp add: exQuery_def exLink_def initialService_def)

text \<open>
  C4 as stated fails: the acknowledgment of a request with \<open>reply = false\<close> has the keys
  \<open>success\<close>, \<open>message\<close> and \<open>assetId\<close>, and no key \<open>accepted\<close>.
\<close>

theorem inspectItem_accepted_counterexample:
  "fst (inspectItem exDeps exConfig
          (exQuery ''35675800220'' ''4649654965632117657'' (Some False)) initialService) =
     Returned (Acknowledged
       [(''success'', JBool True),
        (''message'', JStr ''Inspection request received and being processed in background''),
        (''assetId'', JStr ''35675800220'')]) \<and>
   map_of [(''success'', JBool True),
           (''message'', JStr ''Inspection request received and being processed in background''),
           (''assetId'', JStr ''35675800220'')] ''accepted'' = None"
proof -
  have "inspectItem exDeps exConfig
          (exQuery ''35675800220'' ''4649654965632117657'' (Some False)) initialService =
     (Returned (Acknowledged
        [(''success'', JBool True),
         (''message'', JStr ''Inspection request received and being processed in background''),
         (''assetId'', JStr (l_a (exLink ''35675800220'' ''4649654965632117657'')))]),
      admit exConfig Background (exLink ''35675800220'' ''4649654965632117657'')
        (qy_lowPriority (exQuery ''35675800220'' ''4649654965632117657'' (Some False)))
        (initialService\<lparr>currentRequests := 1\<rparr>))"
    using inspectItem_background [OF exDeps_parse disjI2 [OF ex_cache_miss] ex_not_full,
            of "''35675800220''" "''4649654965632117657''" "Some False"]
    by (simp add: exQuery_def initialService_def)
  then show ?thesis by (simp add: exLink_def)
qed

section \<open>A full queue\<close>

lemma isFull_iff:
  "MAX_QUEUE_SIZE cfg = Some (int n) \<Longrightarrow> isFull cfg q \<longleftrightarrow> n \<le> length q"
  by (simp add: isFull_def queueSize_def)

lemma inspectItem_accepts:
  assumes "parse dp qy = Inr lnk"
    and "flag (qy_refresh qy) \<or> checkCache dp (models sv) (l_a lnk) (l_d lnk) = None"
    and "\<not> isFull cfg (queueService sv)"
    and "map_of (queueService sv) (l_a lnk) = None"
  shows "\<exists>r sv' item. inspectItem dp cfg qy sv = (Returned r, sv') \<and>
           queueService sv' = queueService sv @ [(l_a lnk, item)] \<and>
           models sv' = models sv \<and>
           length (requests sv') = length (requests sv) + 1"
proof (cases "qy_reply qy = Some False")
  case True
  from inspectItem_background [OF assms(1-3) True, of ]
  show ?thesis
    using assms(3,4) by (simp add: admit_queue_new admit_models admit_requests)
next
  case False
  from inspectItem_awaiting [OF assms(1-3) False]
  show ?thesis
    using assms(3,4) by (simp add: admit_queue_new admit_models admit_requests)
qed

lemma submitAll_fill:
  assumes max: "MAX_QUEUE_SIZE cfg = Some (int n)"
  shows "list_all2 (\<lambda>qy lnk. parse dp qy = Inr lnk \<and>
            (flag (qy_refresh qy) \<or> checkCache dp st (l_a lnk) (l_d lnk) = None)) qs lnks \<Longrightarrow>
         models sv = st \<Longrightarrow>
         length (queueService sv) \<le> n \<Longrightarrow>
         length (queueService sv) + length qs = n + 1 \<Longrightarrow>
         distinct (map l_a lnks) \<Longrightarrow>
         \<forall>lnk\<in>set lnks. map_of (queueService sv) (l_a lnk) = None \<Longrightarrow>
         \<exists>rs msg sv'. submitAll dp cfg qs sv = (map Returned rs @ [Threw (HttpException msg 429)], sv') \<and>
            length rs + 1 = length qs \<and>
            length (requests sv') = length (requests sv) + length rs"
proof (induction qs lnks arbitrary: sv rule: list_all2_induct)
  case Nil
  then show ?case by simp
next
  case (Cons qy qs lnk lnks)
  from Cons.hyps(1) have p: "parse dp qy = Inr lnk"
    and c: "flag (qy_refresh qy) \<or> checkCache dp (models sv) (l_a lnk) (l_d lnk) = None"
    using Cons.prems(1) by simp_all
  show ?case
  proof (cases "qs = []")
    case True
    with Cons.prems have "isFull cfg (queueService sv)"
      by (simp add: isFull_iff [OF max])
    from inspectItem_full [OF p c this] True show ?thesis
      by (intro exI [of _ "[]::'a reply list"]) simp
  next
    case False
    with Cons.prems have nf: "\<not> isFull cfg (queueService sv)"
      by (cases qs) (simp_all add: isFull_iff [OF max])
    from Cons.prems have fresh: "map_of (queueService sv) (l_a lnk) = None" by simp
    from inspectItem_accepts [OF p c nf fresh]
    obtain r sv1 item where i: "inspectItem dp cfg qy sv = (Returned r, sv1)"
      and q1: "queueService sv1 = queueService sv @ [(l_a lnk, item)]"
      and m1: "models sv1 = models sv"
      and r1: "length (requests sv1) = length (requests sv) + 1"
      by blast
    have "\<exists>rs msg sv'. submitAll dp cfg qs sv1 =
             (map Returned rs @ [Threw (HttpException msg 429)], sv') \<and>
            length rs + 1 = length qs \<and>
            length (requests sv') = length (requests sv1) + length rs"
    proof (rule Cons.IH)
      show "models sv1 = st" using m1 Cons.prems by simp
      show "length (queueService sv1) \<le> n" using q1 Cons.prems False by (cases qs) simp_all
      show "length (queueService sv1) + length qs = n + 1" using q1 Cons.prems by simp
      show "distinct (map l_a lnks)" using Cons.prems by simp
      show "\<forall>lnk\<in>set lnks. map_of (queueService sv1) (l_a lnk) = None"
      proof
        fix x assume x: "x \<in> set lnks"
        from Cons.prems have "l_a lnk \<notin> l_a ` set lnks" by simp
        with x have "l_a x \<noteq> l_a lnk" by (metis imageI)
        moreover from x Cons.prems have "map_of (queueService sv) (l_a x) = None" by simp
        ultimately show "map_of (queueService sv1) (l_a x) = None"
          using q1 by (simp add: map_add_def)
      qed
    qed
    then obtain rs msg sv' where
      s: "submitAll dp cfg qs sv1 = (map Returned rs @ [Threw (HttpException msg 429)], sv')"
      and l: "length rs + 1 = length qs"
      and rq: "length (requests sv') = length (requests sv1) + length rs"
      by blast
    show ?thesis
      using i s l rq r1
      by (intro exI [of _ "r # rs"] exI [of _ msg] exI [of _ sv']) simp
  qed
qed

text \<open>
  C6. A call that is not served from the cache and meets a full queue throws an
  \<open>HttpException\<close> with status 429, and the service is as before but for the count of
  requests: nothing is added to the queue and no request goes to the worker manager.
  With \<open>MAX_QUEUE_SIZE = n\<close>, of \<open>n + 1\<close> calls for different assets that meet an empty
  queue and are not served from the cache, the first \<open>n\<close> return and the last one throws
  with status 429, and \<open>n\<close> requests have gone to the worker manager. Without the
  environment variable, \<open>MAX_QUEUE_SIZE\<close> is 100.
\<close>

theorem queue_full_rejected:
  "(parse dp qy = Inr lnk \<and>
    (flag (qy_refresh qy) \<or> checkCache dp (models sv) (l_a lnk) (l_d lnk) = None) \<and>
    isFull cfg (queueService sv) \<longrightarrow>
      (\<exists>msg. inspectItem dp cfg qy sv =
         (Threw (HttpException msg 429), sv\<lparr>currentRequests := currentRequests sv + 1\<rparr>))) \<and>
   (MAX_QUEUE_SIZE cfg = Some (int n) \<and> queueService sv = [] \<and> length qs = n + 1 \<and>
    list_all2 (\<lambda>qy lnk. parse dp qy = Inr lnk \<and>
       (flag (qy_refresh qy) \<or> checkCache dp (models sv) (l_a lnk) (l_d lnk) = None)) qs lnks \<and>
    distinct (map l_a lnks) \<longrightarrow>
      (\<exists>rs msg sv'. submitAll dp cfg qs sv =
         (map Returned rs @ [Threw (HttpException msg 429)], sv') \<and>
         length rs = n \<and> length (requests sv') = length (requests sv) + n)) \<and>
   (env_MAX_QUEUE_SIZE cfg = None \<longrightarrow> MAX_QUEUE_SIZE cfg = Some 100)"
proof (intro conjI impI)
  assume "parse dp qy = Inr lnk \<and>
    (flag (qy_refresh qy) \<or> checkCache dp (models sv) (l_a lnk) (l_d lnk) = None) \<and>
    isFull cfg (queueService sv)"
  then show "\<exists>msg. inspectItem dp cfg qy sv =
         (Threw (HttpException msg 429), sv\<lparr>currentRequests := currentRequests sv + 1\<rparr>)"
    using inspectItem_full [of dp qy lnk sv cfg] by blast
next
  assume a: "MAX_QUEUE_SIZE cfg = Some (int n) \<and> queueService sv = [] \<and> length qs = n + 1 \<and>
    list_all2 (\<lambda>qy lnk. parse dp qy = Inr lnk \<and>
       (flag (qy_refresh qy) \<or> checkCache dp (models sv) (l_a lnk) (l_d lnk) = None)) qs lnks \<and>
    distinct (map l_a lnks)"
  then have "\<exists>rs msg sv'. submitAll dp cfg qs sv =
         (map Returned rs @ [Threw (HttpException msg 429)], sv') \<and>
         length rs + 1 = length qs \<and> length (requests sv') = length (requests sv) + length rs"
    by (intro submitAll_fill [where n = n and st = "models sv" and lnks = lnks]) simp_all
  with a show "\<exists>rs msg sv'. submitAll dp cfg qs sv =
         (map Returned rs @ [Threw (HttpException msg 429)], sv') \<and>
         length rs = n \<and> length (requests sv') = length (requests sv) + n"
    by auto
next
  assume "env_MAX_QUEUE_SIZE cfg = None"
  then show "MAX_QUEUE_SIZE cfg = Some 100" by (rule MAX_QUEUE_SIZE_default)
qed

theorem queue_full_rejected_witness:
  "MAX_QUEUE_SIZE exConfig = Some 100 \<and>
   isFull (exConfigMax ''0'') (queueService (initialService :: string service)) \<and>
   (\<exists>msg. inspectItem exDeps (exConfigMax ''0'') (exQuery ''1'' ''7'' None) initialService =
      (Threw (HttpException msg 429), initialService\<lparr>currentRequests := 1\<rparr>)) \<and>
   MAX_QUEUE_SIZE (exConfigMax ''2'') = Some 2 \<and>
   (\<exists>rs msg sv'.
      submitAll exDeps (exConfigMax ''2'')
        [exQuery ''1'' ''7'' None, exQuery ''2'' ''7'' (Some False), exQuery ''3'' ''7'' None]
        initialService =
        (map Returned rs @ [Threw (HttpException msg 429)], sv') \<and>
      length rs = 2 \<and> length (requests sv') = 2)"
proof -
  have full: "isFull (exConfigMax ''0'') (queueService (initialService :: string service))"
    by (simp add: isFull_def exConfigMax_0 queueSize_def initialService_def)
  have l: "list_all2 (\<lambda>qy lnk. parse exDeps qy = Inr lnk \<and>
       (flag (qy_refresh qy) \<or>
        checkCache exDeps (models (initialService :: string service)) (l_a lnk) (l_d lnk) = None))
       [exQuery ''1'' ''7'' None, exQuery ''2'' ''7'' (Some False), exQuery ''3'' ''7'' None]
       [exLink ''1'' ''7'', exLink ''2'' ''7'', exLink ''3'' ''7'']"
    by (simp add: exDeps_parse ex_cache_miss)
  have d: "distinct (map l_a [exLink ''1'' ''7'', exLink ''2'' ''7'', exLink ''3'' ''7''])"
    by (simp add: exLink_def)
  have a: "\<exists>msg. inspectItem exDeps (exConfigMax ''0'') (exQuery ''1'' ''7'' None) initialService =
      (Threw (HttpException msg 429), initialService\<lparr>currentRequests := 1\<rparr>)"
  proof -
    have "parse exDeps (exQuery ''1'' ''7'' None) = Inr (exLink ''1'' ''7'') \<and>
      (flag (qy_refresh (exQuery ''1'' ''7'' None)) \<or>
       checkCache exDeps (models (initialService :: string service))
         (l_a (exLink ''1'' ''7'')) (l_d (exLink ''1'' ''7'')) = None) \<and>
      isFull (exConfigMax ''0'') (queueService (initialService :: string service))"
      by (simp add: exDeps_parse ex_cache_miss full)
    with queue_full_rejected
           [of exDeps "exQuery ''1'' ''7'' None" "exLink ''1'' ''7''" initialService
               "exConfigMax ''0''" 0 "[]" "[]"]
    have "\<exists>msg. inspectItem exDeps (exConfigMax ''0'') (exQuery ''1'' ''7'' None) initialService =
      (Threw (HttpException msg 429),
       (initialService :: string service)
         \<lparr>currentRequests := currentRequests (initialService :: string service) + 1\<rparr>)"
      by blast
    then show ?thesis by (simp add: initialService_def)
  qed
  have b: "\<exists>rs msg sv'.
      submitAll exDeps (exConfigMax ''2'')
        [exQuery ''1'' ''7'' None, exQuery ''2'' ''7'' (Some False), exQuery ''3'' ''7'' None]
        initialService =
        (map Returned rs @ [Threw (HttpException msg 429)], sv') \<and>
      length rs = 2 \<and> length (requests sv') = 2"
  proof -
    have "MAX_QUEUE_SIZE (exConfigMax ''2'') = Some (int 2) \<and>
      queueService (initialService :: string service) = [] \<and>
      length [exQuery ''1'' ''7'' None, exQuery ''2'' ''7'' (Some False), exQuery ''3'' ''7'' None] = 2 + 1 \<and>
      list_all2 (\<lambda>qy lnk. parse exDeps qy = Inr lnk \<and>
         (flag (qy_refresh qy) \<or>
          checkCache exDeps (models (initialService :: string service)) (l_a lnk) (l_d lnk) = None))
        [exQuery ''1'' ''7'' None, exQuery ''2'' ''7'' (Some False), exQuery ''3'' ''7'' None]
        [exLink ''1'' ''7'', exLink ''2'' ''7'', exLink ''3'' ''7''] \<and>
      distinct (map l_a [exLink ''1'' ''7'', exLink ''2'' ''7'', exLink ''3'' ''7''])"
      using l d exConfigMax_2 by (simp add: initialService_def)
    with queue_full_rejected
           [of exDeps "exQuery ''1'' ''7'' None" "exLink ''1'' ''7''" initialService
               "exConfigMax ''2''" 2
               "[exQuery ''1'' ''7'' None, exQuery ''2'' ''7'' (Some False), exQuery ''3'' ''7'' None]"
               "[exLink ''1'' ''7'', exLink ''2'' ''7'', exLink ''3'' ''7'']"]
    have "\<exists>rs msg sv'.
      submitAll exDeps (exConfigMax ''2'')
        [exQuery ''1'' ''7'' None, exQuery ''2'' ''7'' (Some False), exQuery ''3'' ''7'' None]
        initialService =
        (map Returned rs @ [Threw (HttpException msg 429)], sv') \<and>
      length rs = 2 \<and>
      length (requests sv') = length (requests (initialService :: string service)) + 2"
      by blast
    moreover have "length (requests (initialService :: string service)) + 2 = 2"
      by (simp add: initialService_def)
    ultimately show ?thesis by (simp only:)
  qed
  from a b full exConfig_MAX_QUEUE_SIZE exConfigMax_2 show ?thesis by simp
qed

section \<open>Timeouts\<close>

text \<open>
  C5 (what the code does). When the timer of a request that is waited for fires, the
  counter \<open>timeouts\<close> goes up by one and the caller's promise, if still pending, is
  rejected with an \<open>HttpException\<close> of status 504; the queue is left as it is, so the
  entry of the asset stays in it.
\<close>

theorem onTimeout_awaiting:
  assumes "rid < length (requests sv)"
    and "rq_kind (requests sv ! rid) = Awaiting"
    and "rq_timer (requests sv ! rid) = Armed"
  shows "timeouts (onTimeout rid sv) = timeouts sv + 1 \<and>
         rq_promise (requests (onTimeout rid sv) ! rid) =
           settle (Rejected (HttpException ''Inspection request timed out'' 504))
             (rq_promise (requests sv ! rid)) \<and>
         queueService (onTimeout rid sv) = queueService sv"
  using assms by (simp add: onTimeout_def Let_def)

theorem onTimeout_awaiting_witness:
  "timeouts (step exDeps exConfig (TimerFires 0)
      (step exDeps exConfig (Call (exQuery ''35675800220'' ''4649654965632117657'' None))
         initialService)) = 1 \<and>
   rq_promise (requests (step exDeps exConfig (TimerFires 0)
      (step exDeps exConfig (Call (exQuery ''35675800220'' ''4649654965632117657'' None))
         initialService)) ! 0) =
     Some (Rejected (HttpException ''Inspection request timed out'' 504)) \<and>
   map fst (queueService (step exDeps exConfig (TimerFires 0)
      (step exDeps exConfig (Call (exQuery ''35675800220'' ''4649654965632117657'' None))
         initialService))) = [''35675800220'']"
proof -
  let ?sv1 = "admit exConfig Awaiting (exLink ''35675800220'' ''4649654965632117657'') None
        ((initialService :: string service)\<lparr>currentRequests := 1\<rparr>)"
  have s1: "step exDeps exConfig (Call (exQuery ''35675800220'' ''4649654965632117657'' None))
         initialService = ?sv1"
    by (simp add: step_def ex_call_awaiting)
  have rq: "requests ?sv1 =
       [\<lparr> rq_kind = Awaiting, rq_link = exLink ''35675800220'' ''4649654965632117657'',
          rq_priority = Normal, rq_timer = Armed, rq_delay = Some 10000, rq_inFlight = True,
          rq_promise = Some Pending \<rparr>]"
    by (simp add: admit_requests exConfig_QUEUE_TIMEOUT flag_def initialService_def)
  have q: "map fst (queueService ?sv1) = [''35675800220'']"
    using ex_not_full
    by (subst admit_queue_new) (simp_all add: initialService_def exLink_def)
  have t: "timeouts ?sv1 = 0"
    by (simp add: admit_timeouts initialService_def)
  have "timeouts (onTimeout 0 ?sv1) = timeouts ?sv1 + 1 \<and>
         rq_promise (requests (onTimeout 0 ?sv1) ! 0) =
           settle (Rejected (HttpException ''Inspection request timed out'' 504))
             (rq_promise (requests ?sv1 ! 0)) \<and>
         queueService (onTimeout 0 ?sv1) = queueService ?sv1"
    by (rule onTimeout_awaiting) (simp_all add: rq del: One_nat_def)
  then show ?thesis
    unfolding s1 by (simp add: step_def settle_def rq q t del: One_nat_def)
qed

text \<open>The timer of a background request does remove the entry.\<close>

lemma onTimeout_background:
  assumes "rid < length (requests sv)"
    and "rq_kind (requests sv ! rid) = Background"
    and "rq_timer (requests sv ! rid) = Armed"
  shows "timeouts (onTimeout rid sv) = timeouts sv + 1 \<and>
         queueService (onTimeout rid sv) =
           queueRemove (l_a (rq_link (requests sv ! rid))) (queueService sv)"
  using assms by (simp add: onTimeout_def Let_def)

section \<open>The statistics\<close>

lemma inspectItem_inspects: "inspects (snd (inspectItem dp cfg qy sv)) = inspects sv"
  by (simp add: inspectItem_def Let_def processInspectionInBackground_def admit_def
           split: sum.splits option.splits)

lemma onTimeout_inspects: "inspects (onTimeout rid sv) = inspects sv"
  by (simp add: onTimeout_def Let_def split: kind.splits)

lemma onWorkerResult_inspects: "inspects (onWorkerResult dp rid resp sv) = inspects sv"
  by (simp add: onWorkerResult_def Let_def split: kind.splits sum.splits prod.splits)

lemma onWorkerError_inspects: "inspects (onWorkerError rid msg sv) = inspects sv"
  by (simp add: onWorkerError_def Let_def split: kind.splits)

lemma step_inspects: "inspects (step dp cfg ev sv) = inspects sv"
  by (cases ev)
     (simp_all add: step_def inspectItem_inspects onTimeout_inspects
        onWorkerResult_inspects onWorkerError_inspects)

lemma reachable_inspects: "reachable dp cfg sv \<Longrightarrow> inspects sv = []"
  by (induction rule: reachable.induct) (simp_all add: initialService_def step_inspects)

text \<open>
  C9. In every reachable state of the service, the field \<open>service.queue.current\<close> of
  \<open>stats()\<close>, the size of the map \<open>inspects\<close>, is 0: no step of the service changes
  that map.
\<close>

theorem stats_queue_current_zero:
  "reachable dp cfg sv \<Longrightarrow> qs_current (statsQueue cfg sv) = 0"
  by (simp add: statsQueue_def Let_def reachable_inspects)

theorem stats_queue_current_zero_witness:
  "reachable exDeps exConfig
     (step exDeps exConfig (TimerFires 0)
        (step exDeps exConfig (Call (exQuery ''35675800220'' ''4649654965632117657'' None))
           initialService)) \<and>
   qs_current (statsQueue exConfig
     (step exDeps exConfig (TimerFires 0)
        (step exDeps exConfig (Call (exQuery ''35675800220'' ''4649654965632117657'' None))
           initialService))) = 0"
proof -
  have r: "reachable exDeps exConfig
     (step exDeps exConfig (TimerFires 0)
        (step exDeps exConfig (Call (exQuery ''35675800220'' ''4649654965632117657'' None))
           initialService))"
    by (intro reachable.after reachable.initial)
  with stats_queue_current_zero [OF r] show ?thesis by simp
qed

section \<open>The cache and the proof token\<close>

lemma ex_cached: "checkCache exDeps (models exCachedService) ''35675800220'' d = Some ''0a1b2c3d''"
  by (simp add: checkCache_def exCachedService_def exAsset_def exDeps_def parseInt_eval)

text \<open>
  C10. \<open>checkCache\<close> does not depend on the proof token \<open>d\<close>: for every store and
  asset id it returns the same for any two tokens. So of two requests without \<open>refresh\<close>
  for the same asset that differ only in \<open>d\<close>, if one gets a cached record, the other
  gets the same record, and \<open>inspectItem\<close> returns it and leaves the same state for
  both; the token is not compared with the one stored with the asset.
\<close>

theorem checkCache_ignores_proof_token:
  "checkCache dp st a d2 = checkCache dp st a d1 \<and>
   (parse dp q1 = Inr \<lparr> l_s = s, l_a = a, l_d = d1, l_m = m \<rparr> \<and>
    parse dp q2 = Inr \<lparr> l_s = s, l_a = a, l_d = d2, l_m = m \<rparr> \<and>
    \<not> flag (qy_refresh q1) \<and> \<not> flag (qy_refresh q2) \<and>
    checkCache dp (models sv) a d1 = Some r \<longrightarrow>
      fst (inspectItem dp cfg q1 sv) = Returned (CachedAsset r) \<and>
      inspectItem dp cfg q2 sv = inspectItem dp cfg q1 sv)"
proof (intro conjI impI)
  show "checkCache dp st a d2 = checkCache dp st a d1"
    by (simp add: checkCache_def)
next
  assume a: "parse dp q1 = Inr \<lparr> l_s = s, l_a = a, l_d = d1, l_m = m \<rparr> \<and>
    parse dp q2 = Inr \<lparr> l_s = s, l_a = a, l_d = d2, l_m = m \<rparr> \<and>
    \<not> flag (qy_refresh q1) \<and> \<not> flag (qy_refresh q2) \<and>
    checkCache dp (models sv) a d1 = Some r"
  then have p1: "parse dp q1 = Inr \<lparr> l_s = s, l_a = a, l_d = d1, l_m = m \<rparr>"
    and p2: "parse dp q2 = Inr \<lparr> l_s = s, l_a = a, l_d = d2, l_m = m \<rparr>"
    and r1: "\<not> flag (qy_refresh q1)" and r2: "\<not> flag (qy_refresh q2)"
    and hit: "checkCache dp (models sv) a d1 = Some r"
    by blast+
  have same: "checkCache dp (models sv) a d2 = checkCache dp (models sv) a d1"
    by (simp add: checkCache_def)
  have i1: "inspectItem dp cfg q1 sv =
     (Returned (CachedAsset r),
      sv\<lparr>currentRequests := currentRequests sv + 1, cached := cached sv + 1,
         workerManagerCached := workerManagerCached sv + 1\<rparr>)"
    by (rule inspectItem_cached [OF p1]) (simp_all add: r1 hit)
  have i2: "inspectItem dp cfg q2 sv =
     (Returned (CachedAsset r),
      sv\<lparr>currentRequests := currentRequests sv + 1, cached := cached sv + 1,
         workerManagerCached := workerManagerCached sv + 1\<rparr>)"
    by (rule inspectItem_cached [OF p2]) (simp_all add: r2 hit same)
  from i1 show "fst (inspectItem dp cfg q1 sv) = Returned (CachedAsset r)" by simp
  from i1 i2 show "inspectItem dp cfg q2 sv = inspectItem dp cfg q1 sv" by simp
qed

theorem checkCache_ignores_proof_token_witness:
  "a_d exAsset = ''4649654965632117657'' \<and>
   checkCache exDeps (models exCachedService) ''35675800220'' ''1'' = Some ''0a1b2c3d'' \<and>
   fst (inspectItem exDeps exConfig (exQuery ''35675800220'' ''4649654965632117657'' None)
          exCachedService) = Returned (CachedAsset ''0a1b2c3d'') \<and>
   inspectItem exDeps exConfig (exQuery ''35675800220'' ''1'' None) exCachedService =
   inspectItem exDeps exConfig (exQuery ''35675800220'' ''4649654965632117657'' None)
     exCachedService"
proof -
  have h: "parse exDeps (exQuery ''35675800220'' ''4649654965632117657'' None) =
      Inr \<lparr> l_s = ''76561198023809011'', l_a = ''35675800220'',
            l_d = ''4649654965632117657'', l_m = ''0'' \<rparr> \<and>
    parse exDeps (exQuery ''35675800220'' ''1'' None) =
      Inr \<lparr> l_s = ''76561198023809011'', l_a = ''35675800220'', l_d = ''1'', l_m = ''0'' \<rparr> \<and>
    \<not> flag (qy_refresh (exQuery ''35675800220'' ''4649654965632117657'' None)) \<and>
    \<not> flag (qy_refresh (exQuery ''35675800220'' ''1'' None)) \<and>
    checkCache exDeps (models exCachedService) ''35675800220'' ''4649654965632117657'' =
      Some ''0a1b2c3d''"
    by (simp add: exDeps_parse exLink_def ex_cached) (simp add: exQuery_def flag_def)
  from checkCache_ignores_proof_token
         [of exDeps "models exCachedService" "''35675800220''" "''1''" "''4649654965632117657''"
             "exQuery ''35675800220'' ''4649654965632117657'' None" "''76561198023809011''" "''0''"
             "exQuery ''35675800220'' ''1'' None" exCachedService "''0a1b2c3d''" exConfig] h
  have "checkCache exDeps (models exCachedService) ''35675800220'' ''1'' =
          checkCache exDeps (models exCachedService) ''35675800220'' ''4649654965632117657'' \<and>
        fst (inspectItem exDeps exConfig (exQuery ''35675800220'' ''4649654965632117657'' None)
               exCachedService) = Returned (CachedAsset ''0a1b2c3d'') \<and>
        inspectItem exDeps exConfig (exQuery ''35675800220'' ''1'' None) exCachedService =
        inspectItem exDeps exConfig (exQuery ''35675800220'' ''4649654965632117657'' None)
          exCachedService"
    by blast
  moreover have "a_d exAsset = ''4649654965632117657''" by (simp add: exAsset_def)
  ultimately show ?thesis using ex_cached [of "''4649654965632117657''"] by simp
qed

section \<open>The initialization of a shard\<close>

declare retryLoop.simps [simp del]

lemma retryLoop_calls:
  "\<exists>new. calls (retryLoop env m u p r w) = calls w @ new \<and>
         int (length new) \<le> max 0 (m - int r) \<and> set new \<subseteq> {(u, p)}"
proof (induction env m u p r w rule: retryLoop.induct)
  case (1 env m u p r w)
  show ?case
  proof (cases "int r < m")
    case False
    then show ?thesis by (subst retryLoop.simps) simp
  next
    case True
    show ?thesis
    proof (cases "initialize env (length (calls w)) u p")
      case None
      with True show ?thesis by (subst retryLoop.simps) simp
    next
      case (Some msg)
      let ?w1 = "w\<lparr>calls := calls w @ [(u, p)], failureCount := failureCount w + 1\<rparr>"
      show ?thesis
      proof (cases "msg = ''ACCOUNT_DISABLED'' \<or> msg = ''LOGIN_THROTTLED''")
        case True
        with \<open>int r < m\<close> Some show ?thesis
          by (subst retryLoop.simps) (auto simp: Let_def)
      next
        case False
        with "1.IH" [OF True Some refl] 
        obtain new where n: "calls (retryLoop env m u p (r + 1) ?w1) = calls ?w1 @ new"
          and l: "int (length new) \<le> max 0 (m - int (r + 1))" and s: "set new \<subseteq> {(u, p)}"
          by auto
        have "retryLoop env m u p r w = retryLoop env m u p (r + 1) ?w1"
          using True Some False by (subst retryLoop.simps) (simp add: Let_def)
        with n l s True show ?thesis
          by (intro exI [of _ "(u, p) # new"]) auto
      qed
    qed
  qed
qed


lemma retryLoop_break:
  "calls (retryLoop env m u p r w) = calls w @ new \<Longrightarrow> k < length new \<Longrightarrow>
   (initialize env (length (calls w) + k) u p = Some ''ACCOUNT_DISABLED'' \<longrightarrow>
      length new = k + 1 \<and>
      accounts (retryLoop env m u p r w) = filter (\<lambda>acc. \<not> startsWith acc u) (accounts w)) \<and>
   (initialize env (length (calls w) + k) u p = Some ''LOGIN_THROTTLED'' \<longrightarrow>
      length new = k + 1 \<and>
      throttledAccounts (retryLoop env m u p r w) u =
        Some (now env (length (calls w) + k + 1) + THROTTLE_COOLDOWN))"
proof (induction env m u p r w arbitrary: new k rule: retryLoop.induct)
  case (1 env m u p r w)
  show ?case
  proof (cases "int r < m")
    case False
    with "1.prems" show ?thesis by (subst (asm) retryLoop.simps) simp
  next
    case True
    show ?thesis
    proof (cases "initialize env (length (calls w)) u p")
      case None
      with True "1.prems" have "new = [(u, p)]"
        by (subst (asm) retryLoop.simps) simp
      with "1.prems" None show ?thesis by simp
    next
      case (Some msg)
      let ?w1 = "w\<lparr>calls := calls w @ [(u, p)], failureCount := failureCount w + 1\<rparr>"
      consider (disabled) "msg = ''ACCOUNT_DISABLED''"
        | (throttled) "msg = ''LOGIN_THROTTLED''"
        | (other) "msg \<noteq> ''ACCOUNT_DISABLED''" "msg \<noteq> ''LOGIN_THROTTLED''"
        by blast
      then show ?thesis
      proof cases
        case disabled
        have r: "retryLoop env m u p r w =
                 ?w1\<lparr>accounts := filter (\<lambda>acc. \<not> startsWith acc u) (accounts ?w1)\<rparr>"
          using True Some disabled by (subst retryLoop.simps) (simp add: Let_def)
        with "1.prems" have "new = [(u, p)]" by simp
        with "1.prems" Some disabled r show ?thesis by simp
      next
        case throttled
        have r: "retryLoop env m u p r w =
                 ?w1\<lparr>throttledAccounts :=
                       (throttledAccounts ?w1)
                         (u \<mapsto> now env (length (calls ?w1)) + THROTTLE_COOLDOWN)\<rparr>"
          using True Some throttled by (subst retryLoop.simps) (simp add: Let_def)
        with "1.prems" have "new = [(u, p)]" by simp
        with "1.prems" Some throttled r show ?thesis by simp
      next
        case other
        have r: "retryLoop env m u p r w = retryLoop env m u p (r + 1) ?w1"
          using True Some other by (subst retryLoop.simps) (simp add: Let_def)
        from retryLoop_calls [of env m u p "r + 1" ?w1]
        obtain new' where n': "calls (retryLoop env m u p (r + 1) ?w1) = calls ?w1 @ new'"
          by blast
        with r "1.prems" have new: "new = (u, p) # new'" by simp
        show ?thesis
        proof (cases k)
          case 0
          with Some other show ?thesis by simp
        next
          case (Suc k')
          with new "1.prems" have "k' < length new'" by simp
          from "1.IH" [OF True Some refl _ _ n' this] other
          show ?thesis using new Suc r by simp
        qed
      qed
    qed
  qed
qed

lemma splitAccount_prefix: "splitAccount account = (u, p) \<Longrightarrow> startsWith account u"
proof (cases "CHR '':'' \<in> set account")
  case True
  assume "splitAccount account = (u, p)"
  with True have "u = takeWhile (\<lambda>c. c \<noteq> CHR '':'') account"
    by (simp add: splitAccount_def)
  then show ?thesis
    unfolding startsWith_def using takeWhile_eq_take [of "\<lambda>c. c \<noteq> CHR '':''" account] by simp
next
  case False
  assume "splitAccount account = (u, p)"
  with False show ?thesis by (simp add: splitAccount_def startsWith_def)
qed

lemma retryLoop_attempts:
  "calls (retryLoop env m u p r w) = calls w @ new \<Longrightarrow>
   (int r < m \<longrightarrow> new \<noteq> []) \<and>
   (\<forall>k<length new.
      (\<exists>msg. initialize env (length (calls w) + k) u p = Some msg \<and>
             msg \<noteq> ''ACCOUNT_DISABLED'' \<and> msg \<noteq> ''LOGIN_THROTTLED'') \<and>
      int (r + k + 1) < m \<longrightarrow> k + 1 < length new) \<and>
   (\<forall>k<length new.
      initialize env (length (calls w) + k) u p = None \<longrightarrow>
        length new = k + 1 \<and> u \<in> set (bots (retryLoop env m u p r w)) \<and>
        throttledAccounts (retryLoop env m u p r w) u = None)"
proof (induction env m u p r w arbitrary: new rule: retryLoop.induct)
  case (1 env m u p r w)
  show ?case
  proof (cases "int r < m")
    case False
    with "1.prems" show ?thesis by (subst (asm) retryLoop.simps) simp
  next
    case True
    show ?thesis
    proof (cases "initialize env (length (calls w)) u p")
      case None
      have r: "retryLoop env m u p r w =
                 w\<lparr> calls := calls w @ [(u, p)], bots := setBot u (bots w),
                    successCount := successCount w + 1,
                    throttledAccounts := (throttledAccounts w)(u := None) \<rparr>"
        using True None by (subst retryLoop.simps) simp
      with "1.prems" have "new = [(u, p)]" by simp
      with None r show ?thesis by (simp add: setBot_def)
    next
      case (Some msg)
      let ?w1 = "w\<lparr>calls := calls w @ [(u, p)], failureCount := failureCount w + 1\<rparr>"
      consider (disabled) "msg = ''ACCOUNT_DISABLED''"
        | (throttled) "msg = ''LOGIN_THROTTLED''"
        | (other) "msg \<noteq> ''ACCOUNT_DISABLED''" "msg \<noteq> ''LOGIN_THROTTLED''"
        by blast
      then show ?thesis
      proof cases
        case disabled
        have "retryLoop env m u p r w =
                 ?w1\<lparr>accounts := filter (\<lambda>acc. \<not> startsWith acc u) (accounts ?w1)\<rparr>"
          using True Some disabled by (subst retryLoop.simps) (simp add: Let_def)
        with "1.prems" have "new = [(u, p)]" by simp
        with Some disabled show ?thesis by simp
      next
        case throttled
        have "retryLoop env m u p r w =
                 ?w1\<lparr>throttledAccounts :=
                       (throttledAccounts ?w1)
                         (u \<mapsto> now env (length (calls ?w1)) + THROTTLE_COOLDOWN)\<rparr>"
          using True Some throttled by (subst retryLoop.simps) (simp add: Let_def)
        with "1.prems" have "new = [(u, p)]" by simp
        with Some throttled show ?thesis by simp
      next
        case other
        have r: "retryLoop env m u p r w = retryLoop env m u p (r + 1) ?w1"
          using True Some other by (subst retryLoop.simps) (simp add: Let_def)
        from retryLoop_calls [of env m u p "r + 1" ?w1]
        obtain new' where n': "calls (retryLoop env m u p (r + 1) ?w1) = calls ?w1 @ new'"
          by blast
        with r "1.prems" have new: "new = (u, p) # new'" by simp
        note IH = "1.IH" [OF True Some refl _ _ n']
        from IH other have a: "int (r + 1) < m \<longrightarrow> new' \<noteq> []" by simp
        from IH other have b: "\<And>k. k < length new' \<Longrightarrow>
              (\<exists>msg. initialize env (length (calls w) + (k + 1)) u p = Some msg \<and>
                 msg \<noteq> ''ACCOUNT_DISABLED'' \<and> msg \<noteq> ''LOGIN_THROTTLED'') \<Longrightarrow>
              int (r + 1 + k + 1) < m \<Longrightarrow> k + 1 < length new'" by simp
        from IH other have c: "\<And>k. k < length new' \<Longrightarrow>
              initialize env (length (calls w) + (k + 1)) u p = None \<Longrightarrow>
              length new' = k + 1 \<and> u \<in> set (bots (retryLoop env m u p (r + 1) ?w1)) \<and>
              throttledAccounts (retryLoop env m u p (r + 1) ?w1) u = None" by simp
        have "\<forall>k<length new.
            (\<exists>msg. initialize env (length (calls w) + k) u p = Some msg \<and>
               msg \<noteq> ''ACCOUNT_DISABLED'' \<and> msg \<noteq> ''LOGIN_THROTTLED'') \<and>
            int (r + k + 1) < m \<longrightarrow> k + 1 < length new"
        proof (intro allI impI)
          fix k assume k: "k < length new"
            and h: "(\<exists>msg. initialize env (length (calls w) + k) u p = Some msg \<and>
               msg \<noteq> ''ACCOUNT_DISABLED'' \<and> msg \<noteq> ''LOGIN_THROTTLED'') \<and>
               int (r + k + 1) < m"
          show "k + 1 < length new"
          proof (cases k)
            case 0
            with h a new show ?thesis by (cases new') simp_all
          next
            case (Suc k')
            with k new have "k' < length new'" by simp
            from b [OF this] h Suc new show ?thesis by simp
          qed
        qed
        moreover have "\<forall>k<length new.
            initialize env (length (calls w) + k) u p = None \<longrightarrow>
              length new = k + 1 \<and> u \<in> set (bots (retryLoop env m u p r w)) \<and>
              throttledAccounts (retryLoop env m u p r w) u = None"
        proof (intro allI impI)
          fix k assume k: "k < length new"
            and h: "initialize env (length (calls w) + k) u p = None"
          show "length new = k + 1 \<and> u \<in> set (bots (retryLoop env m u p r w)) \<and>
              throttledAccounts (retryLoop env m u p r w) u = None"
          proof (cases k)
            case 0
            with h Some show ?thesis by simp
          next
            case (Suc k')
            with k new have "k' < length new'" by simp
            from c [OF this] h Suc new r show ?thesis by simp
          qed
        qed
        moreover have "new \<noteq> []" using new by simp
        ultimately show ?thesis by blast
      qed
    qed
  qed
qed


lemma retryLoop_accounts: "set (accounts (retryLoop env m u p r w)) \<subseteq> set (accounts w)"
proof (induction env m u p r w rule: retryLoop.induct)
  case (1 env m u p r w)
  show ?case
  proof (cases "int r < m")
    case False
    then show ?thesis by (subst retryLoop.simps) simp
  next
    case True
    show ?thesis
    proof (cases "initialize env (length (calls w)) u p")
      case None
      with True show ?thesis by (subst retryLoop.simps) simp
    next
      case (Some msg)
      show ?thesis
      proof (cases "msg = ''ACCOUNT_DISABLED'' \<or> msg = ''LOGIN_THROTTLED''")
        case True
        with \<open>int r < m\<close> Some show ?thesis
          by (subst retryLoop.simps) (auto simp: Let_def)
      next
        case False
        with "1.IH" [OF True Some refl] True Some show ?thesis
          by (subst retryLoop.simps) (simp add: Let_def)
      qed
    qed
  qed
qed

lemma initAccount_accounts: "set (accounts (initAccount env cfg account w)) \<subseteq> set (accounts w)"
  using retryLoop_accounts
  by (auto simp: initAccount_def split: prod.splits option.splits)

lemma foldl_initAccount_accounts:
  "set (accounts (foldl (\<lambda>w' account. initAccount env cfg account w') w accs)) \<subseteq> set (accounts w)"
proof (induction accs arbitrary: w)
  case Nil
  show ?case by simp
next
  case (Cons a accs)
  from Cons.IH [of "initAccount env cfg a w"] initAccount_accounts [of env cfg a w]
  show ?case by auto
qed

lemma initAccount_exact:
  assumes m: "MAX_RETRIES cfg = Some m" and sp: "splitAccount account = (u, p)"
  shows "\<exists>n. calls (initAccount env cfg account w) = calls w @ replicate n (u, p) \<and>
        int n \<le> max 0 m \<and>
        (\<not> isThrottled env w u \<and> 0 < m \<longrightarrow> 0 < n) \<and>
        (\<forall>k<n.
           (\<exists>msg. initialize env (length (calls w) + k) u p = Some msg \<and>
                  msg \<noteq> ''ACCOUNT_DISABLED'' \<and> msg \<noteq> ''LOGIN_THROTTLED'') \<and>
           int (k + 1) < m \<longrightarrow> k + 1 < n) \<and>
        (\<forall>k<n.
           initialize env (length (calls w) + k) u p = None \<longrightarrow>
             n = k + 1 \<and> u \<in> set (bots (initAccount env cfg account w))) \<and>
        (\<forall>k<n.
           initialize env (length (calls w) + k) u p = Some ''ACCOUNT_DISABLED'' \<longrightarrow>
             n = k + 1 \<and>
             accounts (initAccount env cfg account w) =
               filter (\<lambda>acc. \<not> startsWith acc u) (accounts w)) \<and>
        (\<forall>k<n.
           initialize env (length (calls w) + k) u p = Some ''LOGIN_THROTTLED'' \<longrightarrow>
             n = k + 1 \<and>
             throttledAccounts (initAccount env cfg account w) u =
               Some (now env (length (calls w) + k + 1) + 30 * 60 * 1000) \<and>
             (0 \<le> now env (length (calls w) + k + 1) \<longrightarrow>
                isThrottled env (initAccount env cfg account w) u)) \<and>
        (isThrottled env w u \<longrightarrow> initAccount env cfg account w = w)"
proof (cases "isThrottled env w u")
  case True
  then have e: "initAccount env cfg account w = w"
    by (simp add: initAccount_def sp)
  show ?thesis
    unfolding e using True by (intro exI [of _ 0]) simp
next
  case False
  then have i: "initAccount env cfg account w = retryLoop env m u p 0 w"
    by (simp add: initAccount_def sp m)
  from retryLoop_calls [of env m u p 0 w]
  obtain new where n: "calls (retryLoop env m u p 0 w) = calls w @ new"
    and l: "int (length new) \<le> max 0 m" and s: "set new \<subseteq> {(u, p)}"
    by auto
  have rep: "new = replicate (length new) (u, p)"
    using s by (induction new) auto
  note a = retryLoop_attempts [OF n]
  note b = retryLoop_break [OF n]
  have c1: "calls (initAccount env cfg account w) = calls w @ replicate (length new) (u, p)"
    using n rep i by simp
  have c3: "\<not> isThrottled env w u \<and> 0 < m \<longrightarrow> 0 < length new"
    using a by simp
  have c4: "\<forall>k<length new.
              (\<exists>msg. initialize env (length (calls w) + k) u p = Some msg \<and>
                     msg \<noteq> ''ACCOUNT_DISABLED'' \<and> msg \<noteq> ''LOGIN_THROTTLED'') \<and>
              int (k + 1) < m \<longrightarrow> k + 1 < length new"
    using a by simp
  have c5: "\<forall>k<length new.
              initialize env (length (calls w) + k) u p = None \<longrightarrow>
                length new = k + 1 \<and> u \<in> set (bots (initAccount env cfg account w))"
    using a i by simp
  have c6: "\<forall>k<length new.
              initialize env (length (calls w) + k) u p = Some ''ACCOUNT_DISABLED'' \<longrightarrow>
                length new = k + 1 \<and>
                accounts (initAccount env cfg account w) =
                  filter (\<lambda>acc. \<not> startsWith acc u) (accounts w)"
    using b i by simp
  have c7: "\<forall>k<length new.
              initialize env (length (calls w) + k) u p = Some ''LOGIN_THROTTLED'' \<longrightarrow>
                length new = k + 1 \<and>
                throttledAccounts (initAccount env cfg account w) u =
                  Some (now env (length (calls w) + k + 1) + 30 * 60 * 1000) \<and>
                (0 \<le> now env (length (calls w) + k + 1) \<longrightarrow>
                   isThrottled env (initAccount env cfg account w) u)"
  proof (intro allI impI)
    fix k assume k: "k < length new"
      and h: "initialize env (length (calls w) + k) u p = Some ''LOGIN_THROTTLED''"
    from b [OF k] h have l1: "length new = k + 1"
      and t: "throttledAccounts (retryLoop env m u p 0 w) u =
                Some (now env (length (calls w) + k + 1) + THROTTLE_COOLDOWN)"
      by blast+
    have len: "length (calls (initAccount env cfg account w)) = length (calls w) + k + 1"
      using c1 l1 by simp
    show "length new = k + 1 \<and>
          throttledAccounts (initAccount env cfg account w) u =
            Some (now env (length (calls w) + k + 1) + 30 * 60 * 1000) \<and>
          (0 \<le> now env (length (calls w) + k + 1) \<longrightarrow>
             isThrottled env (initAccount env cfg account w) u)"
      using l1 t len unfolding i [symmetric]
      by (simp add: THROTTLE_COOLDOWN_def isThrottled_def)
  qed
  have c8: "isThrottled env w u \<longrightarrow> initAccount env cfg account w = w"
    using False by simp
  show ?thesis
    using c1 l c3 c4 c5 c6 c7 c8 by (intro exI [of _ "length new"] conjI)
qed

lemma initAccount_calls:
  assumes "MAX_RETRIES cfg = Some m"
  shows "\<exists>new. calls (initAccount env cfg account w) = calls w @ new \<and> int (length new) \<le> max 0 m"
proof -
  obtain u p where sp: "splitAccount account = (u, p)" by (cases "splitAccount account")
  from initAccount_exact [OF assms sp, of env w]
  obtain n where "calls (initAccount env cfg account w) = calls w @ replicate n (u, p) \<and>
        int n \<le> max 0 m" by (elim exE conjE) (rule that, intro conjI)
  then show ?thesis by (intro exI [of _ "replicate n (u, p)"]) simp
qed

lemma foldl_initAccount_calls:
  assumes "MAX_RETRIES cfg = Some m"
  shows "\<exists>new. calls (foldl (\<lambda>w' account. initAccount env cfg account w') w accs) = calls w @ new \<and>
           int (length new) \<le> max 0 m * int (length accs)"
proof (induction accs arbitrary: w)
  case Nil
  then show ?case by simp
next
  case (Cons a accs)
  from initAccount_calls [OF assms, of env a w]
  obtain n1 where n1: "calls (initAccount env cfg a w) = calls w @ n1" "int (length n1) \<le> max 0 m"
    by blast
  from Cons.IH [of "initAccount env cfg a w"]
  obtain n2 where n2: "calls (foldl (\<lambda>w' account. initAccount env cfg account w') (initAccount env cfg a w) accs)
                         = calls (initAccount env cfg a w) @ n2"
      "int (length n2) \<le> max 0 m * int (length accs)"
    by blast
  from n1 n2 show ?case
    by (intro exI [of _ "n1 @ n2"]) (simp add: algebra_simps)
qed

lemma afterAccounts_0: "afterAccounts env cfg w 0 = w"
  by (simp add: afterAccounts_def)

lemma afterAccounts_Suc:
  "i < length (accounts w) \<Longrightarrow>
   afterAccounts env cfg w (Suc i) = initAccount env cfg (accounts w ! i) (afterAccounts env cfg w i)"
  by (simp add: afterAccounts_def take_Suc_conv_app_nth)

lemma afterAccounts_all: "initializeBots env cfg w = afterAccounts env cfg w (length (accounts w))"
  by (simp add: afterAccounts_def initializeBots_def)

lemma initializeBots_from:
  "initializeBots env cfg w =
     foldl (\<lambda>w' account. initAccount env cfg account w') (afterAccounts env cfg w i)
       (drop i (accounts w))"
proof -
  have "foldl (\<lambda>w' account. initAccount env cfg account w') w (take i (accounts w) @ drop i (accounts w)) =
        foldl (\<lambda>w' account. initAccount env cfg account w') (afterAccounts env cfg w i)
          (drop i (accounts w))"
    unfolding foldl_append afterAccounts_def ..
  then show ?thesis by (simp add: initializeBots_def)
qed

lemma initializeBots_extends:
  "take (length (calls (afterAccounts env cfg w i))) (calls (initializeBots env cfg w)) =
     calls (afterAccounts env cfg w i)"
proof (cases "MAX_RETRIES cfg")
  case None
  have "\<And>accs w'. foldl (\<lambda>w' account. initAccount env cfg account w') w' accs = w'"
  proof -
    fix accs :: "string list" and w' :: botWorker
    show "foldl (\<lambda>w' account. initAccount env cfg account w') w' accs = w'"
      by (induction accs arbitrary: w') (simp_all add: initAccount_def None split: prod.splits)
  qed
  then show ?thesis by (simp add: initializeBots_def afterAccounts_def)
next
  case (Some m)
  from foldl_initAccount_calls [OF Some, of env "afterAccounts env cfg w i" "drop i (accounts w)"]
  obtain rest where "calls (initializeBots env cfg w) = calls (afterAccounts env cfg w i) @ rest"
    unfolding initializeBots_from [of env cfg w i, symmetric] by blast
  then show ?thesis by simp
qed

lemma initializeBots_dropped:
  assumes i: "i < length (accounts w)" and sp: "splitAccount (accounts w ! i) = (u, p)"
    and f: "accounts (afterAccounts env cfg w (Suc i)) =
              filter (\<lambda>acc. \<not> startsWith acc u) (accounts (afterAccounts env cfg w i))"
  shows "accounts w ! i \<notin> set (accounts (initializeBots env cfg w))"
proof -
  have "set (accounts (initializeBots env cfg w)) \<subseteq> set (accounts (afterAccounts env cfg w (Suc i)))"
    using foldl_initAccount_accounts [of env cfg "afterAccounts env cfg w (Suc i)" "drop (Suc i) (accounts w)"]
    unfolding initializeBots_from [of env cfg w "Suc i", symmetric] .
  with f splitAccount_prefix [OF sp] show ?thesis by auto
qed

lemmas ex_init_eval =
  afterAccounts_def exWorker_def initAccount_def splitAccount_def exConfig_MAX_RETRIES
  isThrottled_def retryLoop.simps Let_def exEnv_def startsWith_def setBot_def
  THROTTLE_COOLDOWN_def

lemma ex_after_alice:
  "calls (afterAccounts exEnv exConfig exWorker 1) = [(''alice'', ''pw'')] \<and>
   \<not> isThrottled exEnv (afterAccounts exEnv exConfig exWorker 1) ''bob''"
  by (simp add: ex_init_eval)


lemma ex_after_bob:
  "calls (afterAccounts exEnv exConfig exWorker 2) = [(''alice'', ''pw''), (''bob'', ''x:y'')] \<and>
   \<not> isThrottled exEnv (afterAccounts exEnv exConfig exWorker 2) ''carol''"
  by (simp add: ex_init_eval)

lemma ex_after_carol:
  "calls (afterAccounts exEnv exConfig exWorker 3) =
     [(''alice'', ''pw''), (''bob'', ''x:y''), (''carol'', ''pw'')] \<and>
   \<not> isThrottled exEnv (afterAccounts exEnv exConfig exWorker 3) ''dave''"
  by (simp add: ex_init_eval)

lemma ex_accounts:
  "length (accounts exWorker) = 4 \<and>
   splitAccount (accounts exWorker ! 0) = (''alice'', ''pw'') \<and>
   splitAccount (accounts exWorker ! 1) = (''bob'', ''x:y'') \<and>
   splitAccount (accounts exWorker ! 2) = (''carol'', ''pw'') \<and>
   splitAccount (accounts exWorker ! 3) = (''dave'', ''pw'')"
  by (simp add: exWorker_def splitAccount_def)


text \<open>
  C8. With \<open>MAX_RETRIES = m\<close> (3 without the environment variable), \<open>initializeBots\<close>
  goes through every account of the partition, and for account number \<open>i\<close>, with the user
  name \<open>u\<close> and the password \<open>p\<close>:
  \<^item> the calls of \<open>initialize\<close> it makes are \<open>attempts env cfg w i\<close> calls for \<open>(u, p)\<close>,
    at most \<open>m\<close>, and they are part of the calls of the whole initialization;
  \<^item> an account that is not throttled is attempted (if \<open>m\<close> is positive), and a call that
    fails with another error than the two below is followed by a further call as long as
    fewer than \<open>m\<close> have been made;
  \<^item> a call that resolves is the last one, and the bot is registered;
  \<^item> a call that fails with \<open>ACCOUNT_DISABLED\<close> is the last one, the partition loses every
    account whose line starts with \<open>u\<close>, and the account is not in the partition when the
    initialization ends;
  \<^item> a call that fails with \<open>LOGIN_THROTTLED\<close> is the last one, and the account is throttled
    until the time of the failure plus 30 minutes;
  \<^item> an account that is throttled is skipped: the worker is left as it is.

  The whole initialization makes at most \<open>m\<close> calls per account of the partition.
\<close>

theorem initializeBots_retries:
  assumes m: "MAX_RETRIES cfg = Some m" and i: "i < length (accounts w)"
    and sp: "splitAccount (accounts w ! i) = (u, p)"
  shows "calls (afterAccounts env cfg w (Suc i)) =
           calls (afterAccounts env cfg w i) @ replicate (attempts env cfg w i) (u, p) \<and>
         int (attempts env cfg w i) \<le> max 0 m \<and>
         (\<not> isThrottled env (afterAccounts env cfg w i) u \<and> 0 < m \<longrightarrow> 0 < attempts env cfg w i) \<and>
         (\<forall>k<attempts env cfg w i.
            (\<exists>msg. initialize env (length (calls (afterAccounts env cfg w i)) + k) u p = Some msg \<and>
                   msg \<noteq> ''ACCOUNT_DISABLED'' \<and> msg \<noteq> ''LOGIN_THROTTLED'') \<and>
            int (k + 1) < m \<longrightarrow> k + 1 < attempts env cfg w i) \<and>
         (\<forall>k<attempts env cfg w i.
            initialize env (length (calls (afterAccounts env cfg w i)) + k) u p = None \<longrightarrow>
              attempts env cfg w i = k + 1 \<and> u \<in> set (bots (afterAccounts env cfg w (Suc i)))) \<and>
         (\<forall>k<attempts env cfg w i.
            initialize env (length (calls (afterAccounts env cfg w i)) + k) u p =
              Some ''ACCOUNT_DISABLED'' \<longrightarrow>
              attempts env cfg w i = k + 1 \<and>
              accounts (afterAccounts env cfg w (Suc i)) =
                filter (\<lambda>acc. \<not> startsWith acc u) (accounts (afterAccounts env cfg w i)) \<and>
              accounts w ! i \<notin> set (accounts (initializeBots env cfg w))) \<and>
         (\<forall>k<attempts env cfg w i.
            initialize env (length (calls (afterAccounts env cfg w i)) + k) u p =
              Some ''LOGIN_THROTTLED'' \<longrightarrow>
              attempts env cfg w i = k + 1 \<and>
              throttledAccounts (afterAccounts env cfg w (Suc i)) u =
                Some (now env (length (calls (afterAccounts env cfg w i)) + k + 1)
                        + 30 * 60 * 1000) \<and>
              (0 \<le> now env (length (calls (afterAccounts env cfg w i)) + k + 1) \<longrightarrow>
                 isThrottled env (afterAccounts env cfg w (Suc i)) u)) \<and>
         (isThrottled env (afterAccounts env cfg w i) u \<longrightarrow>
            afterAccounts env cfg w (Suc i) = afterAccounts env cfg w i) \<and>
         afterAccounts env cfg w 0 = w \<and>
         initializeBots env cfg w = afterAccounts env cfg w (length (accounts w)) \<and>
         take (length (calls (afterAccounts env cfg w (Suc i)))) (calls (initializeBots env cfg w)) =
           calls (afterAccounts env cfg w (Suc i)) \<and>
         int (length (calls (initializeBots env cfg w))) \<le>
           int (length (calls w)) + max 0 m * int (length (accounts w)) \<and>
         (env_MAX_RETRIES cfg = None \<longrightarrow> m = 3)"
proof -
  let ?n = "attempts env cfg w i"
  let ?b = "afterAccounts env cfg w i"
  have a: "afterAccounts env cfg w (Suc i) = initAccount env cfg (accounts w ! i) ?b"
    by (rule afterAccounts_Suc [OF i])
  from initAccount_exact [OF m sp, of env ?b, folded a]
  obtain n where e: "calls (afterAccounts env cfg w (Suc i)) = calls ?b @ replicate n (u, p) \<and>
        int n \<le> max 0 m \<and>
        (\<not> isThrottled env ?b u \<and> 0 < m \<longrightarrow> 0 < n) \<and>
        (\<forall>k<n.
           (\<exists>msg. initialize env (length (calls ?b) + k) u p = Some msg \<and>
                  msg \<noteq> ''ACCOUNT_DISABLED'' \<and> msg \<noteq> ''LOGIN_THROTTLED'') \<and>
           int (k + 1) < m \<longrightarrow> k + 1 < n) \<and>
        (\<forall>k<n.
           initialize env (length (calls ?b) + k) u p = None \<longrightarrow>
             n = k + 1 \<and> u \<in> set (bots (afterAccounts env cfg w (Suc i)))) \<and>
        (\<forall>k<n.
           initialize env (length (calls ?b) + k) u p = Some ''ACCOUNT_DISABLED'' \<longrightarrow>
             n = k + 1 \<and>
             accounts (afterAccounts env cfg w (Suc i)) =
               filter (\<lambda>acc. \<not> startsWith acc u) (accounts ?b)) \<and>
        (\<forall>k<n.
           initialize env (length (calls ?b) + k) u p = Some ''LOGIN_THROTTLED'' \<longrightarrow>
             n = k + 1 \<and>
             throttledAccounts (afterAccounts env cfg w (Suc i)) u =
               Some (now env (length (calls ?b) + k + 1) + 30 * 60 * 1000) \<and>
             (0 \<le> now env (length (calls ?b) + k + 1) \<longrightarrow>
                isThrottled env (afterAccounts env cfg w (Suc i)) u)) \<and>
        (isThrottled env ?b u \<longrightarrow> afterAccounts env cfg w (Suc i) = ?b)"
    ..
  note e1 = e [THEN conjunct1]
  have na: "n = ?n"
    unfolding attempts_def e1 by simp
  note E = e [unfolded na]
  note E1 = E [THEN conjunct1]
    and E2 = E [THEN conjunct2, THEN conjunct1]
    and E3 = E [THEN conjunct2, THEN conjunct2, THEN conjunct1]
    and E4 = E [THEN conjunct2, THEN conjunct2, THEN conjunct2, THEN conjunct1]
    and E5 = E [THEN conjunct2, THEN conjunct2, THEN conjunct2, THEN conjunct2, THEN conjunct1]
    and E6 = E [THEN conjunct2, THEN conjunct2, THEN conjunct2, THEN conjunct2, THEN conjunct2,
                THEN conjunct1]
    and E7 = E [THEN conjunct2, THEN conjunct2, THEN conjunct2, THEN conjunct2, THEN conjunct2,
                THEN conjunct2, THEN conjunct1]
    and E8 = E [THEN conjunct2, THEN conjunct2, THEN conjunct2, THEN conjunct2, THEN conjunct2,
                THEN conjunct2, THEN conjunct2]
  have c6: "\<forall>k<attempts env cfg w i.
            initialize env (length (calls (afterAccounts env cfg w i)) + k) u p =
              Some ''ACCOUNT_DISABLED'' \<longrightarrow>
              attempts env cfg w i = k + 1 \<and>
              accounts (afterAccounts env cfg w (Suc i)) =
                filter (\<lambda>acc. \<not> startsWith acc u) (accounts (afterAccounts env cfg w i)) \<and>
              accounts w ! i \<notin> set (accounts (initializeBots env cfg w))"
  proof (intro allI impI)
    fix k assume k: "k < attempts env cfg w i"
      and h: "initialize env (length (calls (afterAccounts env cfg w i)) + k) u p =
                Some ''ACCOUNT_DISABLED''"
    note r = E6 [rule_format, OF k h]
    note f = r [THEN conjunct2]
    from r [THEN conjunct1] f initializeBots_dropped [OF i sp f]
    show "attempts env cfg w i = k + 1 \<and>
          accounts (afterAccounts env cfg w (Suc i)) =
            filter (\<lambda>acc. \<not> startsWith acc u) (accounts (afterAccounts env cfg w i)) \<and>
          accounts w ! i \<notin> set (accounts (initializeBots env cfg w))"
      by (intro conjI)
  qed
  from foldl_initAccount_calls [OF m, of env w "accounts w"]
  have bound: "int (length (calls (initializeBots env cfg w))) \<le>
           int (length (calls w)) + max 0 m * int (length (accounts w))"
    unfolding initializeBots_def by auto
  have d: "env_MAX_RETRIES cfg = None \<longrightarrow> m = 3"
    using MAX_RETRIES_default [of cfg] m by auto
  show ?thesis
    using E1 E2 E3 E4 E5 c6 E7 E8 afterAccounts_0 [of env cfg w]
      afterAccounts_all [of env cfg w] initializeBots_extends [of env cfg w "Suc i"] bound d
    by (intro conjI)
qed

theorem initializeBots_retries_witness:
  "MAX_RETRIES exConfig = Some 3 \<and>
   3 < length (accounts exWorker) \<and>
   splitAccount (accounts exWorker ! 3) = (''dave'', ''pw'') \<and>
   \<not> isThrottled exEnv (afterAccounts exEnv exConfig exWorker 3) ''dave'' \<and>
   attempts exEnv exConfig exWorker 3 = 3 \<and>
   calls (initializeBots exEnv exConfig exWorker) =
     [(''alice'', ''pw''), (''bob'', ''x:y''), (''carol'', ''pw''),
      (''dave'', ''pw''), (''dave'', ''pw''), (''dave'', ''pw'')] \<and>
   ''alice'' \<in> set (bots (afterAccounts exEnv exConfig exWorker 1)) \<and>
   ''bob:x:y'' \<notin> set (accounts (initializeBots exEnv exConfig exWorker)) \<and>
   throttledAccounts (afterAccounts exEnv exConfig exWorker 3) ''carol'' = Some 1803000 \<and>
   isThrottled exEnv (afterAccounts exEnv exConfig exWorker 3) ''carol''"
proof -
  note len = ex_accounts [THEN conjunct1]
  note sa = ex_accounts [THEN conjunct2, THEN conjunct1]
    and sb = ex_accounts [THEN conjunct2, THEN conjunct2, THEN conjunct1]
    and sc = ex_accounts [THEN conjunct2, THEN conjunct2, THEN conjunct2, THEN conjunct1]
    and sd = ex_accounts [THEN conjunct2, THEN conjunct2, THEN conjunct2, THEN conjunct2]
  have i0: "0 < length (accounts exWorker)" and i1: "1 < length (accounts exWorker)"
    and i2: "2 < length (accounts exWorker)" and i3: "3 < length (accounts exWorker)"
    using len by simp_all
  have oa: "\<And>j. initialize exEnv j ''alice'' ''pw'' = None"
    and ob: "\<And>j. initialize exEnv j ''bob'' ''x:y'' = Some ''ACCOUNT_DISABLED''"
    and oc: "\<And>j. initialize exEnv j ''carol'' ''pw'' = Some ''LOGIN_THROTTLED''"
    and od: "\<And>j. \<exists>msg. initialize exEnv j ''dave'' ''pw'' = Some msg \<and>
                 msg \<noteq> ''ACCOUNT_DISABLED'' \<and> msg \<noteq> ''LOGIN_THROTTLED''"
    by (simp_all add: exEnv_def)
  have ta: "\<not> isThrottled exEnv (afterAccounts exEnv exConfig exWorker 0) ''alice''"
    by (simp add: afterAccounts_0 isThrottled_def exWorker_def)
  note tb = ex_after_alice [THEN conjunct2]
    and tc = ex_after_bob [THEN conjunct2]
    and td = ex_after_carol [THEN conjunct2]
  have pos: "(0::int) < 3" by simp
  have alice: "''alice'' \<in> set (bots (afterAccounts exEnv exConfig exWorker 1))"
  proof -
    note T = initializeBots_retries [OF exConfig_MAX_RETRIES i0 sa, of exEnv]
    note T3 = T [THEN conjunct2, THEN conjunct2, THEN conjunct1]
    note T5 = T [THEN conjunct2, THEN conjunct2, THEN conjunct2, THEN conjunct2, THEN conjunct1]
    note n0 = T3 [THEN mp, OF conjI [OF ta pos]]
    from T5 [rule_format, OF n0 oa]
    have "''alice'' \<in> set (bots (afterAccounts exEnv exConfig exWorker (Suc 0)))"
      by (rule conjunct2)
    then show ?thesis by simp
  qed
  have bob: "''bob:x:y'' \<notin> set (accounts (initializeBots exEnv exConfig exWorker))"
  proof -
    note T = initializeBots_retries [OF exConfig_MAX_RETRIES i1 sb, of exEnv]
    note T3 = T [THEN conjunct2, THEN conjunct2, THEN conjunct1]
    note T6 = T [THEN conjunct2, THEN conjunct2, THEN conjunct2, THEN conjunct2, THEN conjunct2,
                 THEN conjunct1]
    note n0 = T3 [THEN mp, OF conjI [OF tb pos]]
    from T6 [rule_format, OF n0 ob]
    have "accounts exWorker ! 1 \<notin> set (accounts (initializeBots exEnv exConfig exWorker))"
      by (elim conjE)
    then show ?thesis by (simp add: exWorker_def)
  qed
  have carol: "throttledAccounts (afterAccounts exEnv exConfig exWorker 3) ''carol'' = Some 1803000 \<and>
               isThrottled exEnv (afterAccounts exEnv exConfig exWorker 3) ''carol''"
  proof -
    note T = initializeBots_retries [OF exConfig_MAX_RETRIES i2 sc, of exEnv]
    note T3 = T [THEN conjunct2, THEN conjunct2, THEN conjunct1]
    note T7 = T [THEN conjunct2, THEN conjunct2, THEN conjunct2, THEN conjunct2, THEN conjunct2,
                 THEN conjunct2, THEN conjunct1]
    note n0 = T3 [THEN mp, OF conjI [OF tc pos]]
    note r = T7 [rule_format, OF n0 oc]
    have "now exEnv (length [(''alice'', ''pw''), (''bob'', ''x:y'')] + 0 + 1) = 3000"
      by (simp add: exEnv_def)
    then have n: "now exEnv (length (calls (afterAccounts exEnv exConfig exWorker 2)) + 0 + 1) = 3000"
      unfolding ex_after_bob [THEN conjunct1] .
    from r [THEN conjunct2, THEN conjunct1] r [THEN conjunct2, THEN conjunct2] n
    show ?thesis by simp
  qed
  have dave: "attempts exEnv exConfig exWorker 3 = 3 \<and>
     calls (initializeBots exEnv exConfig exWorker) =
     [(''alice'', ''pw''), (''bob'', ''x:y''), (''carol'', ''pw''),
      (''dave'', ''pw''), (''dave'', ''pw''), (''dave'', ''pw'')]"
  proof -
    note T = initializeBots_retries [OF exConfig_MAX_RETRIES i3 sd, of exEnv]
    note T1 = T [THEN conjunct1]
    note T2 = T [THEN conjunct2, THEN conjunct1]
    note T3 = T [THEN conjunct2, THEN conjunct2, THEN conjunct1]
    note T4 = T [THEN conjunct2, THEN conjunct2, THEN conjunct2, THEN conjunct1]
    note T10 = T [THEN conjunct2, THEN conjunct2, THEN conjunct2, THEN conjunct2, THEN conjunct2,
                  THEN conjunct2, THEN conjunct2, THEN conjunct2, THEN conjunct2, THEN conjunct1]
    note n0 = T3 [THEN mp, OF conjI [OF td pos]]
    have "0 + 1 < attempts exEnv exConfig exWorker 3"
      by (rule T4 [rule_format, OF n0]) (simp add: od)
    then have n1: "1 < attempts exEnv exConfig exWorker 3" by simp
    have "1 + 1 < attempts exEnv exConfig exWorker 3"
      by (rule T4 [rule_format, OF n1]) (simp add: od)
    with T2 have n: "attempts exEnv exConfig exWorker 3 = 3" by simp
    from T1 have "calls (afterAccounts exEnv exConfig exWorker 4) =
              calls (afterAccounts exEnv exConfig exWorker 3) @ replicate 3 (''dave'', ''pw'')"
      unfolding n by simp
    with T10 len ex_after_carol [THEN conjunct1] n show ?thesis
      by (simp add: numeral_3_eq_3)
  qed
  from exConfig_MAX_RETRIES i3 sd td dave alice bob carol show ?thesis
    by (intro conjI) (elim conjE, assumption)+
qed

end
